theory Spec2Isabelle
  imports Complex_Main
begin

section \<open>Numbers and vectors\<close>

text \<open>
  JavaScript numbers are modelled as real numbers: the embedding follows the arithmetic
  of the source on finite values, without rounding. Where a division of the source can
  be by zero, the definition treats that case apart and says what the source computes.
  Timestamps of \<^verbatim>\<open>Date.now()\<close> are integers (milliseconds).

  \<^verbatim>\<open>THREE.Vector3\<close> is a record of three coordinates. The vector operations the
  source calls are written out as three.js defines them; \<^verbatim>\<open>normalize\<close> divides by
  \<^verbatim>\<open>length() || 1\<close>.
\<close>

record vec3 =
  vx :: real
  vy :: real
  vz :: real

definition subVectors :: "vec3 \<Rightarrow> vec3 \<Rightarrow> vec3" where
  "subVectors a b = \<lparr>vx = vx a - vx b, vy = vy a - vy b, vz = vz a - vz b\<rparr>"

definition addVec :: "vec3 \<Rightarrow> vec3 \<Rightarrow> vec3" where
  "addVec a b = \<lparr>vx = vx a + vx b, vy = vy a + vy b, vz = vz a + vz b\<rparr>"

definition multiplyScalar :: "vec3 \<Rightarrow> real \<Rightarrow> vec3" where
  "multiplyScalar a s = \<lparr>vx = vx a * s, vy = vy a * s, vz = vz a * s\<rparr>"

definition dot :: "vec3 \<Rightarrow> vec3 \<Rightarrow> real" where
  "dot a b = vx a * vx b + vy a * vy b + vz a * vz b"

definition lengthVec :: "vec3 \<Rightarrow> real" where
  "lengthVec a = sqrt (vx a * vx a + vy a * vy a + vz a * vz a)"

definition normalize :: "vec3 \<Rightarrow> vec3" where
  "normalize a =
     (let l = (if lengthVec a = 0 then 1 else lengthVec a)
      in \<lparr>vx = vx a / l, vy = vy a / l, vz = vz a / l\<rparr>)"

definition distanceTo :: "vec3 \<Rightarrow> vec3 \<Rightarrow> real" where
  "distanceTo a b =
     (let dx = vx a - vx b; dy = vy a - vy b; dz = vz a - vz b
      in sqrt (dx * dx + dy * dy + dz * dz))"

section \<open>Alert states and thresholds (StealthSystem)\<close>

datatype AlertState = IDLE | SUSPICIOUS | ALERTED | COMBAT

text \<open>
  The detection parameters and thresholds are assigned once in the constructor of
  \<^verbatim>\<open>StealthSystem\<close> and never written again; they are constants here.
\<close>

fun detectionSpeed :: "AlertState \<Rightarrow> real" where
  "detectionSpeed IDLE = 0.5"
| "detectionSpeed SUSPICIOUS = 0.8"
| "detectionSpeed ALERTED = 1.2"
| "detectionSpeed COMBAT = 2.0"

definition suspiciousThreshold :: real where
  "suspiciousThreshold = 0.3"

definition alertedThreshold :: real where
  "alertedThreshold = 0.7"

definition combatThreshold :: real where
  "combatThreshold = 1.0"

definition getStateFromLevel :: "real \<Rightarrow> AlertState" where
  "getStateFromLevel level =
     (if level \<ge> combatThreshold then COMBAT
      else if level \<ge> alertedThreshold then ALERTED
      else if level \<ge> suspiciousThreshold then SUSPICIOUS
      else IDLE)"

section \<open>Agents (EnemyAI)\<close>

text \<open>
  The record holds the simulation fields the constructor of \<^verbatim>\<open>EnemyAI\<close> assigns
  before \<^verbatim>\<open>createMesh()\<close>. The scene-graph objects (group, body, limbs, weapon)
  and the animation phase are rendering state and are not part of the model; neither are
  the audio calls and the deferred visual resets.
\<close>

record enemy =
  eid :: nat
  isTarget :: bool
  position :: vec3
  rotation :: real
  velocity :: vec3
  patrolRoute :: "vec3 list"
  currentPatrolIndex :: nat
  patrolWaitTime :: real
  patrolWaitDuration :: real
  detectionRange :: real
  detectionAngle :: real
  alertLevel :: real
  alertState :: AlertState
  alertDecayRate :: real
  health :: real
  maxHealth :: real
  isAlive :: bool
  shootCooldown :: real
  shootInterval :: real
  shootRange :: real
  damage :: real
  accuracy :: real
  lastKnownPlayerPos :: "vec3 option"
  investigateTime :: real
  investigateDuration :: real
  lostPlayerTime :: real
  searchTime :: real
  walkSpeed :: real
  runSpeed :: real
  turnSpeed :: real
  inCover :: bool
  coverPosition :: "vec3 option"
  coverTime :: real

definition newEnemy :: "nat \<Rightarrow> vec3 \<Rightarrow> vec3 list \<Rightarrow> bool \<Rightarrow> enemy" where
  "newEnemy n pos patrol target =
     \<lparr>eid = n, isTarget = target,
      position = pos, rotation = 0, velocity = \<lparr>vx = 0, vy = 0, vz = 0\<rparr>,
      patrolRoute = patrol, currentPatrolIndex = 0,
      patrolWaitTime = 0, patrolWaitDuration = 2,
      detectionRange = (if target then 8 else 12), detectionAngle = pi / 3,
      alertLevel = 0, alertState = IDLE, alertDecayRate = 0.15,
      health = (if target then 50 else 100), maxHealth = (if target then 50 else 100),
      isAlive = True,
      shootCooldown = 0, shootInterval = 0.8, shootRange = 20, damage = 10, accuracy = 0.7,
      lastKnownPlayerPos = None,
      investigateTime = 0, investigateDuration = 5, lostPlayerTime = 0, searchTime = 0,
      walkSpeed = 2, runSpeed = 5, turnSpeed = 3,
      inCover = False, coverPosition = None, coverTime = 0\<rparr>"

definition die :: "enemy \<Rightarrow> enemy" where
  "die a = a\<lparr>isAlive := False\<rparr>"

text \<open>
  \<^verbatim>\<open>takeDamage(amount, isHeadshot)\<close> returns the flag \<^verbatim>\<open>killed\<close> together with
  the agent after the call.
\<close>

definition takeDamage :: "real \<Rightarrow> bool \<Rightarrow> enemy \<Rightarrow> bool \<times> enemy" where
  "takeDamage amount isHeadshot a =
     (if \<not> isAlive a then (False, a)
      else
        let amount' = (if isHeadshot then amount * 2 else amount);
            a1 = a\<lparr>health := health a - amount'\<rparr>
        in if health a1 \<le> 0 then (True, die a1)
           else (False, a1\<lparr>alertLevel := 1, alertState := COMBAT\<rparr>))"

section \<open>The player (PlayerController)\<close>

text \<open>The fields of the player that the stealth system and the agents read or write.\<close>

record player =
  p_position :: vec3
  p_velocity :: vec3
  p_isRunning :: bool
  p_isCrouching :: bool
  p_isMoving :: bool
  p_isAlive :: bool
  p_health :: real
  p_maxHealth :: real
  p_cameraShake :: real

definition getVisibilityMultiplier :: "player \<Rightarrow> real" where
  "getVisibilityMultiplier p =
     (let m0 = 1;
          m1 = (if p_isCrouching p then m0 * 0.5 else m0);
          m2 = (if p_isRunning p then m1 * 1.5 else m1);
          m3 = (if \<not> p_isMoving p then m2 * 0.7 else m2)
      in m3)"

definition p_die :: "player \<Rightarrow> player" where
  "p_die p = p\<lparr>p_isAlive := False, p_velocity := \<lparr>vx = 0, vy = 0, vz = 0\<rparr>\<rparr>"

definition p_takeDamage :: "real \<Rightarrow> player \<Rightarrow> player" where
  "p_takeDamage amount p =
     (if \<not> p_isAlive p then p
      else
        let p1 = p\<lparr>p_health := p_health p - amount, p_cameraShake := 1\<rparr>
        in if p_health p1 \<le> 0 then p_die (p1\<lparr>p_health := 0\<rparr>) else p1)"

definition newPlayer :: player where
  "newPlayer =
     \<lparr>p_position = \<lparr>vx = 0, vy = 0, vz = 25\<rparr>, p_velocity = \<lparr>vx = 0, vy = 0, vz = 0\<rparr>,
      p_isRunning = False, p_isCrouching = False, p_isMoving = False, p_isAlive = True,
      p_health = 100, p_maxHealth = 100, p_cameraShake = 0\<rparr>"

section \<open>Lighting zones (LevelBuilder)\<close>

record zone =
  center :: vec3
  radius :: real

record LevelBuilder =
  lightZones :: "zone list"
  darkZones :: "zone list"

fun inAnyZone :: "vec3 \<Rightarrow> zone list \<Rightarrow> bool" where
  "inAnyZone pos [] = False"
| "inAnyZone pos (z # zs) =
     (if distanceTo pos (center z) < radius z then True else inAnyZone pos zs)"

definition isInLightZone :: "LevelBuilder \<Rightarrow> vec3 \<Rightarrow> bool" where
  "isInLightZone lb pos = inAnyZone pos (lightZones lb)"

definition isInDarkZone :: "LevelBuilder \<Rightarrow> vec3 \<Rightarrow> bool" where
  "isInDarkZone lb pos = inAnyZone pos (darkZones lb)"

definition getLightingModifier :: "LevelBuilder \<Rightarrow> vec3 \<Rightarrow> real" where
  "getLightingModifier lb pos =
     (if isInLightZone lb pos then 1.5
      else if isInDarkZone lb pos then 0.5
      else 1.0)"

section \<open>The stealth system\<close>

record soundSource =
  snd_position :: vec3
  snd_loudness :: real
  snd_type :: string
  snd_time :: int
  snd_radius :: real

text \<open>
  The loudness of a heard sound is the one number of the model that can be NaN: the
  quotient \<^verbatim>\<open>distance / sound.radius\<close> is \<open>0 / 0\<close> for a sound of radius 0 at the
  very position of the listener.
\<close>

datatype number = Num real | NaN

record heardSound =
  h_position :: vec3
  h_loudness :: number
  h_type :: string

text \<open>
  The scene is seen through the raycaster only: \<open>intersectObjects ss origin direction far\<close>
  is the list of the distances at which the ray meets the meshes that
  \<^verbatim>\<open>hasLineOfSight\<close> collects (those that belong neither to an enemy nor to the
  player), as three.js would report them.
\<close>

record StealthSystem =
  intersectObjects :: "vec3 \<Rightarrow> vec3 \<Rightarrow> real \<Rightarrow> real list"
  levelBuilder :: LevelBuilder
  globalAlertState :: AlertState
  globalAlertLevel :: real
  soundSources :: "soundSource list"

definition newStealthSystem ::
    "(vec3 \<Rightarrow> vec3 \<Rightarrow> real \<Rightarrow> real list) \<Rightarrow> LevelBuilder \<Rightarrow> StealthSystem" where
  "newStealthSystem scene lb =
     \<lparr>intersectObjects = scene, levelBuilder = lb,
      globalAlertState = IDLE, globalAlertLevel = 0, soundSources = []\<rparr>"

subsection \<open>Line of sight and visual detection\<close>

fun noCloserHit :: "real list \<Rightarrow> real \<Rightarrow> bool" where
  "noCloserHit [] distance = True"
| "noCloserHit (d # ds) distance =
     (if d < distance - 0.1 then False else noCloserHit ds distance)"

definition hasLineOfSight :: "StealthSystem \<Rightarrow> vec3 \<Rightarrow> vec3 \<Rightarrow> bool" where
  "hasLineOfSight ss from to =
     (let direction = normalize (subVectors to from);
          distance = distanceTo from to;
          intersects = intersectObjects ss from direction distance
      in noCloserHit intersects distance)"

text \<open>
  The local constants \<^verbatim>\<open>enemyPos\<close>, \<^verbatim>\<open>playerPos\<close>, \<^verbatim>\<open>distance\<close> and
  \<^verbatim>\<open>angle\<close> of \<^verbatim>\<open>checkDetection\<close> get names of their own, so that theorems
  can speak about them.
\<close>

definition cd_enemyPos :: "enemy \<Rightarrow> vec3" where
  "cd_enemyPos e = (position e)\<lparr>vy := 1\<rparr>"

definition cd_playerPos :: "player \<Rightarrow> vec3" where
  "cd_playerPos p = (p_position p)\<lparr>vy := (if p_isCrouching p then 0.5 else 1.2)\<rparr>"

definition cd_distance :: "enemy \<Rightarrow> player \<Rightarrow> real" where
  "cd_distance e p = distanceTo (cd_enemyPos e) (cd_playerPos p)"

definition cd_angle :: "enemy \<Rightarrow> player \<Rightarrow> real" where
  "cd_angle e p =
     (let dirToPlayer = normalize (subVectors (cd_playerPos p) (cd_enemyPos e));
          enemyForward = \<lparr>vx = - sin (rotation e), vy = 0, vz = - cos (rotation e)\<rparr>
      in arccos (dot dirToPlayer enemyForward))"

definition checkDetection :: "StealthSystem \<Rightarrow> enemy \<Rightarrow> player \<Rightarrow> real \<Rightarrow> real" where
  "checkDetection ss e p deltaTime =
     (if \<not> p_isAlive p then 0
      else
        let distance = cd_distance e p in
        if distance > detectionRange e then 0
        else
          let angle = cd_angle e p in
          if angle > detectionAngle e then 0
          else if \<not> hasLineOfSight ss (cd_enemyPos e) (cd_playerPos p) then 0
          else
            let detectionRate = detectionSpeed (alertState e);
                distanceModifier = 1 - distance / detectionRange e;
                detectionRate = detectionRate * (1 + distanceModifier);
                angleModifier = 1 - angle / detectionAngle e;
                detectionRate = detectionRate * (0.5 + angleModifier * 0.5);
                detectionRate = detectionRate * getVisibilityMultiplier p;
                lightMod = getLightingModifier (levelBuilder ss) (p_position p);
                detectionRate = detectionRate * lightMod
            in detectionRate * deltaTime)"

subsection \<open>Sounds\<close>


text \<open>
  The loop of \<^verbatim>\<open>checkSoundDetection\<close>. The division is reached with a radius of 0
  only when the distance is not greater than 0, that is when it is 0 too: the quotient
  is then NaN, and so is the product.
\<close>

fun collectHeard :: "vec3 \<Rightarrow> int \<Rightarrow> soundSource list \<Rightarrow> heardSound list" where
  "collectHeard pos now [] = []"
| "collectHeard pos now (s # rest) =
     (let age = now - snd_time s in
      if age > 2000 then collectHeard pos now rest
      else
        let distance = distanceTo pos (snd_position s) in
        if distance > snd_radius s then collectHeard pos now rest
        else
          let effectiveLoudness =
                (if snd_radius s = 0 then NaN
                 else Num (snd_loudness s * (1 - distance / snd_radius s)))
          in \<lparr>h_position = snd_position s, h_loudness = effectiveLoudness,
               h_type = snd_type s\<rparr> # collectHeard pos now rest)"

text \<open>
  \<^verbatim>\<open>heardSounds.sort((a, b) => b.loudness - a.loudness)\<close>. The sort of an array is
  stable and reads a comparator result that is NaN as 0. When every loudness is a number
  the result is the stable sort by descending loudness, whatever the algorithm. With a
  NaN the comparator is not consistent and ECMAScript leaves the order to the
  implementation; the model then gives the order of this stable insertion sort.
\<close>

definition compareLoudness :: "heardSound \<Rightarrow> heardSound \<Rightarrow> real" where
  "compareLoudness a b =
     (case (h_loudness b, h_loudness a) of
        (Num lb, Num la) \<Rightarrow> lb - la
      | _ \<Rightarrow> 0)"

fun insertHeard :: "heardSound \<Rightarrow> heardSound list \<Rightarrow> heardSound list" where
  "insertHeard a [] = [a]"
| "insertHeard a (b # bs) =
     (if compareLoudness a b \<le> 0 then a # b # bs else b # insertHeard a bs)"

definition sortHeard :: "heardSound list \<Rightarrow> heardSound list" where
  "sortHeard hs = foldr insertHeard hs []"

definition checkSoundDetection :: "StealthSystem \<Rightarrow> int \<Rightarrow> enemy \<Rightarrow> heardSound option" where
  "checkSoundDetection ss now e =
     (let heardSounds = collectHeard (position e) now (soundSources ss) in
      if length heardSounds = 0 then None
      else Some (hd (sortHeard heardSounds)))"



subsection \<open>Global alert\<close>

fun highestAlert :: "enemy list \<Rightarrow> AlertState \<times> real \<Rightarrow> AlertState \<times> real" where
  "highestAlert [] acc = acc"
| "highestAlert (e # es) (highestState, highestLevel) =
     (if alertLevel e > highestLevel then highestAlert es (alertState e, alertLevel e)
      else highestAlert es (highestState, highestLevel))"

text \<open>The call returns the new global state; the system keeps state and level.\<close>

definition updateGlobalAlert :: "enemy list \<Rightarrow> StealthSystem \<Rightarrow> AlertState \<times> StealthSystem" where
  "updateGlobalAlert enemies ss =
     (let (highestState, highestLevel) = highestAlert enemies (IDLE, 0);
          ss' = ss\<lparr>globalAlertLevel := highestLevel, globalAlertState := highestState\<rparr>
      in (globalAlertState ss', ss'))"

fun maxDetection :: "enemy list \<Rightarrow> real \<Rightarrow> real" where
  "maxDetection [] m = m"
| "maxDetection (e # es) m =
     (if alertLevel e > m then maxDetection es (alertLevel e) else maxDetection es m)"

definition getDetectionMeter :: "enemy list \<Rightarrow> real" where
  "getDetectionMeter enemies = min 1 (maxDetection enemies 0)"

text \<open>\<open>alertEnemy\<close> is the body of the loop of \<^verbatim>\<open>alertAllEnemies\<close>.\<close>

definition alertEnemy :: "vec3 \<Rightarrow> real \<Rightarrow> enemy \<Rightarrow> enemy" where
  "alertEnemy pos level e =
     (let e1 = e\<lparr>lastKnownPlayerPos := Some pos\<rparr>;
          e2 = e1\<lparr>alertLevel := max (alertLevel e1) level\<rparr>
      in e2\<lparr>alertState := getStateFromLevel (alertLevel e2)\<rparr>)"

definition alertAllEnemies :: "enemy list \<Rightarrow> vec3 \<Rightarrow> real \<Rightarrow> enemy list" where
  "alertAllEnemies enemies pos level = map (alertEnemy pos level) enemies"

section \<open>Movement of an agent\<close>

record Box3 =
  bmin :: vec3
  bmax :: vec3

text \<open>\<^verbatim>\<open>this.intersectsBox(box)\<close> of three.js: the boxes overlap on all three axes.\<close>

definition intersectsBox :: "Box3 \<Rightarrow> Box3 \<Rightarrow> bool" where
  "intersectsBox this box =
     (if vx (bmax box) < vx (bmin this) \<or> vx (bmin box) > vx (bmax this) \<or>
         vy (bmax box) < vy (bmin this) \<or> vy (bmin box) > vy (bmax this) \<or>
         vz (bmax box) < vz (bmin this) \<or> vz (bmin box) > vz (bmax this)
      then False else True)"

text \<open>
  A collider is of type \<^verbatim>\<open>'cylinder'\<close> (with position and radius), or it has
  \<^verbatim>\<open>bounds\<close>, or neither.
\<close>

datatype collider = Cylinder vec3 real | Bounded Box3 | Unbounded

fun hitsAny :: "vec3 \<Rightarrow> collider list \<Rightarrow> bool" where
  "hitsAny pos [] = False"
| "hitsAny pos (Cylinder cpos cradius # cs) =
     (let dx = vx pos - vx cpos;
          dz = vz pos - vz cpos;
          dist = sqrt (dx * dx + dz * dz)
      in if dist < 0.3 + cradius then True else hitsAny pos cs)"
| "hitsAny pos (Bounded b # cs) =
     (let testBounds = \<lparr>bmin = \<lparr>vx = vx pos - 0.3, vy = 0, vz = vz pos - 0.3\<rparr>,
                        bmax = \<lparr>vx = vx pos + 0.3, vy = 2, vz = vz pos + 0.3\<rparr>\<rparr>
      in if intersectsBox testBounds b then True else hitsAny pos cs)"
| "hitsAny pos (Unbounded # cs) = hitsAny pos cs"

definition checkCollision :: "vec3 \<Rightarrow> collider list \<Rightarrow> bool" where
  "checkCollision pos colliders =
     (if hitsAny pos colliders then True
      else if \<bar>vx pos\<bar> > 24 \<or> \<bar>vz pos\<bar> > 29 then True
      else False)"

text \<open>
  \<^verbatim>\<open>Math.atan2(y, x)\<close> as \<^verbatim>\<open>facePosition\<close> calls it. The doubles have two
  zeros where the reals have one. Both arguments of the call are negations of a
  difference of coordinates; a difference that is zero is \<open>+0\<close> (coordinates that are
  \<open>-0\<close> are outside the model), and its negation is \<open>-0\<close>. So a zero argument is read
  as \<open>-0\<close>: \<^verbatim>\<open>atan2(-0, x)\<close> is \<open>-\<pi>\<close> for a negative \<open>x\<close> and for \<open>x = -0\<close>,
  and \<open>-0\<close> for a positive \<open>x\<close>.
\<close>

definition atan2 :: "real \<Rightarrow> real \<Rightarrow> real" where
  "atan2 y x =
     (if x > 0 then arctan (y / x)
      else if x < 0 then (if y > 0 then arctan (y / x) + pi else arctan (y / x) - pi)
      else if y > 0 then pi / 2
      else if y < 0 then - (pi / 2)
      else - pi)"

text \<open>The two loops of \<^verbatim>\<open>facePosition\<close> that bring the difference into \<open>[-\<pi>, \<pi>]\<close>.\<close>

function wrapAbove :: "real \<Rightarrow> real" where
  "wrapAbove diff = (if diff > pi then wrapAbove (diff - pi * 2) else diff)"
  by pat_completeness auto
termination
proof (relation "measure (\<lambda>d. nat \<lceil>d / (pi * 2)\<rceil>)")
  show "wf (measure (\<lambda>d. nat \<lceil>d / (pi * 2)\<rceil>))" by simp
next
  fix diff :: real
  assume gt: "pi < diff"
  have "(diff - pi * 2) / (pi * 2) = diff / (pi * 2) - 1"
    by (simp add: diff_divide_distrib)
  then have shift: "\<lceil>(diff - pi * 2) / (pi * 2)\<rceil> = \<lceil>diff / (pi * 2)\<rceil> - 1"
    by (simp only: ceiling_diff_one)
  have "0 < diff"
    using gt pi_gt_zero by linarith
  then have "0 < diff / (pi * 2)"
    by (intro divide_pos_pos) simp_all
  then have "1 \<le> \<lceil>diff / (pi * 2)\<rceil>"
    by linarith
  then show "(diff - pi * 2, diff) \<in> measure (\<lambda>d. nat \<lceil>d / (pi * 2)\<rceil>)"
    unfolding in_measure shift by linarith
qed

function wrapBelow :: "real \<Rightarrow> real" where
  "wrapBelow diff = (if diff < - pi then wrapBelow (diff + pi * 2) else diff)"
  by pat_completeness auto
termination
proof (relation "measure (\<lambda>d. nat \<lceil>(0 - d) / (pi * 2)\<rceil>)")
  show "wf (measure (\<lambda>d. nat \<lceil>(0 - d) / (pi * 2)\<rceil>))" by simp
next
  fix diff :: real
  assume lt: "diff < - pi"
  have "(0 - (diff + pi * 2)) / (pi * 2) = (0 - diff) / (pi * 2) - 1"
    by (simp add: field_simps)
  then have shift: "\<lceil>(0 - (diff + pi * 2)) / (pi * 2)\<rceil> = \<lceil>(0 - diff) / (pi * 2)\<rceil> - 1"
    by (simp only: ceiling_diff_one)
  have "0 < 0 - diff"
    using lt pi_gt_zero by linarith
  then have "0 < (0 - diff) / (pi * 2)"
    by (intro divide_pos_pos) simp_all
  then have "1 \<le> \<lceil>(0 - diff) / (pi * 2)\<rceil>"
    by linarith
  then show "(diff + pi * 2, diff) \<in> measure (\<lambda>d. nat \<lceil>(0 - d) / (pi * 2)\<rceil>)"
    unfolding in_measure shift by linarith
qed

definition facePosition :: "vec3 \<Rightarrow> real \<Rightarrow> enemy \<Rightarrow> enemy" where
  "facePosition target deltaTime a =
     (let direction = subVectors target (position a);
          targetRotation = atan2 (- vx direction) (- vz direction);
          diff = targetRotation - rotation a;
          diff = wrapAbove diff;
          diff = wrapBelow diff
      in a\<lparr>rotation := rotation a + diff * turnSpeed a * deltaTime\<rparr>)"

text \<open>
  \<^verbatim>\<open>direction.multiplyScalar(...)\<close> scales \<^verbatim>\<open>direction\<close> in place, so the slide
  direction is built from the scaled vector.
\<close>

definition moveTowards :: "vec3 \<Rightarrow> real \<Rightarrow> real \<Rightarrow> collider list \<Rightarrow> enemy \<Rightarrow> enemy" where
  "moveTowards target speed deltaTime colliders a =
     (let a1 = facePosition target deltaTime a;
          direction = normalize (subVectors target (position a1));
          direction = multiplyScalar direction (speed * deltaTime);
          newPosition = addVec (position a1) direction
      in if \<not> checkCollision newPosition colliders then a1\<lparr>position := newPosition\<rparr>
         else
           let slideDir = \<lparr>vx = vz direction, vy = 0, vz = - vx direction\<rparr>;
               slidePos = addVec (position a1)
                            (multiplyScalar slideDir (speed * deltaTime * 0.5))
           in if \<not> checkCollision slidePos colliders then a1\<lparr>position := slidePos\<rparr>
              else a1)"

section \<open>Behaviour modes\<close>

text \<open>
  Reading \<^verbatim>\<open>patrolRoute[currentPatrolIndex]\<close> outside the route gives
  \<^verbatim>\<open>undefined\<close>, and \<^verbatim>\<open>distanceTo(undefined)\<close> throws: the only exception of
  the per-tick update.
\<close>

datatype error = TypeError

definition patrol :: "real \<Rightarrow> collider list \<Rightarrow> int \<Rightarrow> enemy \<Rightarrow> error + enemy" where
  "patrol deltaTime colliders now a =
     (if length (patrolRoute a) = 0 then
        Inr (a\<lparr>rotation := rotation a + sin (real_of_int now * 0.001) * 0.01\<rparr>)
      else if patrolWaitTime a > 0 then
        Inr (a\<lparr>patrolWaitTime := patrolWaitTime a - deltaTime,
               rotation := rotation a + sin (real_of_int now * 0.002) * 0.02\<rparr>)
      else if currentPatrolIndex a \<ge> length (patrolRoute a) then Inl TypeError
      else
        let target = patrolRoute a ! currentPatrolIndex a;
            distance = distanceTo (position a) target
        in if distance < 0.5 then
             Inr (a\<lparr>currentPatrolIndex :=
                       (currentPatrolIndex a + 1) mod length (patrolRoute a),
                    patrolWaitTime := patrolWaitDuration a\<rparr>)
           else Inr (moveTowards target (walkSpeed a) deltaTime colliders a))"

definition investigate :: "real \<Rightarrow> collider list \<Rightarrow> int \<Rightarrow> enemy \<Rightarrow> error + enemy" where
  "investigate deltaTime colliders now a =
     (case lastKnownPlayerPos a of
        None \<Rightarrow> patrol deltaTime colliders now a
      | Some lastKnown \<Rightarrow>
          let a1 = a\<lparr>investigateTime := investigateTime a + deltaTime\<rparr>;
              distance = distanceTo (position a1) lastKnown;
              a2 = (if distance > 1
                    then moveTowards lastKnown (walkSpeed a1 * 1.5) deltaTime colliders a1
                    else a1\<lparr>rotation :=
                              rotation a1 + sin (real_of_int now * 0.003) * 0.05\<rparr>)
          in if investigateTime a2 > investigateDuration a2
             then Inr (a2\<lparr>investigateTime := 0, lastKnownPlayerPos := None,
                         alertLevel := 0\<rparr>)
             else Inr a2)"

definition search :: "real \<Rightarrow> player \<Rightarrow> collider list \<Rightarrow> enemy \<Rightarrow> enemy" where
  "search deltaTime pl colliders a =
     (let a1 = a\<lparr>searchTime := searchTime a + deltaTime\<rparr>;
          a2 = (case lastKnownPlayerPos a1 of
                  None \<Rightarrow> a1
                | Some lastKnown \<Rightarrow>
                    let distance = distanceTo (position a1) lastKnown
                    in if distance > 1
                       then moveTowards lastKnown (runSpeed a1 * 0.8) deltaTime colliders a1
                       else a1\<lparr>rotation := rotation a1 + deltaTime * 2\<rparr>)
      in if searchTime a2 > 10
         then a2\<lparr>searchTime := 0, alertLevel := alertLevel a2 - 0.3\<rparr>
         else a2)"

text \<open>
  \<open>rnd\<close> is the value drawn by \<^verbatim>\<open>Math.random()\<close>. With a shoot range of 0 the
  quotient is not a real number: it is NaN at distance 0, and so is the hit chance, which
  no draw is below; at a positive distance it is \<open>+\<infinity>\<close>, and the hit chance is
  \<open>+\<infinity>\<close>, above every draw, for a negative accuracy, and \<open>-\<infinity>\<close> or NaN otherwise.
\<close>

definition shoot :: "player \<Rightarrow> real \<Rightarrow> enemy \<Rightarrow> enemy \<times> player" where
  "shoot pl rnd a =
     (let a1 = a\<lparr>shootCooldown := shootInterval a\<rparr>;
          distance = distanceTo (position a1) (p_position pl);
          hitChance = accuracy a1 * (1 - distance / shootRange a1 * 0.5);
          hitChance = (if p_isMoving pl then hitChance * 0.7 else hitChance);
          hitChance = (if p_isCrouching pl then hitChance * 0.6 else hitChance);
          hit = (if shootRange a1 = 0 then distance \<noteq> 0 \<and> accuracy a1 < 0
                 else rnd < hitChance)
      in if hit then (a1, p_takeDamage (damage a1) pl) else (a1, pl))"

definition combat :: "real \<Rightarrow> player \<Rightarrow> collider list \<Rightarrow> real \<Rightarrow> enemy \<Rightarrow> enemy \<times> player" where
  "combat deltaTime pl colliders rnd a =
     (if \<not> p_isAlive pl then (a\<lparr>alertLevel := 0.5\<rparr>, pl)
      else
        let a1 = a\<lparr>lastKnownPlayerPos := Some (p_position pl)\<rparr>;
            distance = distanceTo (position a1) (p_position pl);
            a2 = facePosition (p_position pl) deltaTime a1
        in if distance > shootRange a2 then
             (moveTowards (p_position pl) (runSpeed a2) deltaTime colliders a2, pl)
           else if distance < 8 then
             let a3 = a2\<lparr>coverTime := coverTime a2 + deltaTime\<rparr>;
                 a4 = (if coverTime a3 > 2 then
                         let strafeDir = multiplyScalar
                               \<lparr>vx = cos (rotation a3 + pi / 2), vy = 0,
                                vz = - sin (rotation a3 + pi / 2)\<rparr>
                               (walkSpeed a3 * deltaTime);
                             newPos = addVec (position a3) strafeDir;
                             a3' = (if \<not> checkCollision newPos colliders
                                    then a3\<lparr>position := addVec (position a3) strafeDir\<rparr>
                                    else a3)
                         in if coverTime a3' > 4 then a3'\<lparr>coverTime := 0\<rparr> else a3'
                       else a3)
             in if shootCooldown a4 \<le> 0 \<and> \<not> isTarget a4 then shoot pl rnd a4
                else (a4, pl)
           else if shootCooldown a2 \<le> 0 \<and> \<not> isTarget a2 then shoot pl rnd a2
           else (a2, pl))"

section \<open>The per-tick update of an agent\<close>

text \<open>
  The body of \<^verbatim>\<open>update\<close> is a sequence of blocks, each modelled by one function, in
  the order of the source: decay, visual detection, sounds, the recomputation of the
  state, the behaviour of that state, the cooldown. \<open>now\<close> is \<^verbatim>\<open>Date.now()\<close>
  during the tick and \<open>rnd\<close> the draw of \<^verbatim>\<open>Math.random()\<close> of a shot.
  The update returns the agent and the player, whom a shot may have hurt.
\<close>

definition update_decay :: "real \<Rightarrow> enemy \<Rightarrow> enemy" where
  "update_decay deltaTime a =
     (if alertLevel a > 0 \<and> alertState a \<noteq> COMBAT then
        let a1 = a\<lparr>alertLevel := alertLevel a - alertDecayRate a * deltaTime\<rparr>
        in if alertLevel a1 < 0 then a1\<lparr>alertLevel := 0\<rparr> else a1
      else a)"

definition update_detect :: "real \<Rightarrow> player \<Rightarrow> StealthSystem \<Rightarrow> enemy \<Rightarrow> enemy" where
  "update_detect deltaTime pl ss a =
     (let detectionAmount = checkDetection ss a pl deltaTime
      in if detectionAmount > 0
         then a\<lparr>alertLevel := alertLevel a + detectionAmount,
                lastKnownPlayerPos := Some (p_position pl)\<rparr>
         else a)"

definition update_sound :: "StealthSystem \<Rightarrow> int \<Rightarrow> enemy \<Rightarrow> enemy" where
  "update_sound ss now a =
     (case checkSoundDetection ss now a of
        None \<Rightarrow> a
      | Some sound \<Rightarrow>
          if h_type sound = ''gunshot'' then
            let a1 = a\<lparr>alertLevel := max (alertLevel a) 0.5\<rparr>
            in (case lastKnownPlayerPos a1 of
                  None \<Rightarrow> a1\<lparr>lastKnownPlayerPos := Some (h_position sound)\<rparr>
                | Some _ \<Rightarrow> a1)
          else a)"

definition update_state :: "enemy \<Rightarrow> enemy" where
  "update_state a = a\<lparr>alertState := getStateFromLevel (alertLevel a)\<rparr>"

definition update_behaviour ::
    "real \<Rightarrow> player \<Rightarrow> collider list \<Rightarrow> int \<Rightarrow> real \<Rightarrow> enemy \<Rightarrow> error + enemy \<times> player" where
  "update_behaviour deltaTime pl colliders now rnd a =
     (case alertState a of
        IDLE \<Rightarrow> map_sum id (\<lambda>a'. (a', pl)) (patrol deltaTime colliders now a)
      | SUSPICIOUS \<Rightarrow> map_sum id (\<lambda>a'. (a', pl)) (investigate deltaTime colliders now a)
      | ALERTED \<Rightarrow> Inr (search deltaTime pl colliders a, pl)
      | COMBAT \<Rightarrow> Inr (combat deltaTime pl colliders rnd a))"

definition update_cooldown :: "real \<Rightarrow> enemy \<Rightarrow> enemy" where
  "update_cooldown deltaTime a =
     (if shootCooldown a > 0 then a\<lparr>shootCooldown := shootCooldown a - deltaTime\<rparr> else a)"

text \<open>The agent as it stands when the behaviour of the tick is chosen.\<close>

definition update_intake :: "real \<Rightarrow> player \<Rightarrow> StealthSystem \<Rightarrow> int \<Rightarrow> enemy \<Rightarrow> enemy" where
  "update_intake deltaTime pl ss now a =
     update_state (update_sound ss now (update_detect deltaTime pl ss (update_decay deltaTime a)))"

definition update ::
    "real \<Rightarrow> player \<Rightarrow> StealthSystem \<Rightarrow> collider list \<Rightarrow> int \<Rightarrow> real \<Rightarrow> enemy
       \<Rightarrow> error + enemy \<times> player" where
  "update deltaTime pl ss colliders now rnd a =
     (if \<not> isAlive a then Inr (a, pl)
      else
        case update_behaviour deltaTime pl colliders now rnd
               (update_intake deltaTime pl ss now a) of
          Inl err \<Rightarrow> Inl err
        | Inr (a', pl') \<Rightarrow> Inr (update_cooldown deltaTime a', pl'))"

section \<open>The life of one agent\<close>

text \<open>
  What happens to an agent after its construction: ticks of the game loop (with whatever
  player, world, clock and random draw the tick has), hits of the weapon system, and
  broadcast alerts. An exception ends the run.
\<close>

datatype event =
    Tick real player StealthSystem "collider list" int real
  | Hit real bool
  | Alert vec3 real

fun step :: "event \<Rightarrow> enemy \<Rightarrow> error + enemy" where
  "step (Tick deltaTime pl ss colliders now rnd) a =
     map_sum id fst (update deltaTime pl ss colliders now rnd a)"
| "step (Hit amount isHeadshot) a = Inr (snd (takeDamage amount isHeadshot a))"
| "step (Alert pos level) a = Inr (alertEnemy pos level a)"

fun run :: "event list \<Rightarrow> enemy \<Rightarrow> error + enemy" where
  "run [] a = Inr a"
| "run (ev # evs) a = (case step ev a of Inl err \<Rightarrow> Inl err | Inr a' \<Rightarrow> run evs a')"

text \<open>A sequence of calls of \<^verbatim>\<open>takeDamage\<close> on one agent, with the flags they return.\<close>

fun takeDamages :: "(real \<times> bool) list \<Rightarrow> enemy \<Rightarrow> bool list \<times> enemy" where
  "takeDamages [] a = ([], a)"
| "takeDamages ((amount, isHeadshot) # calls) a =
     (let (killed, a') = takeDamage amount isHeadshot a;
          (flags, a'') = takeDamages calls a'
      in (killed # flags, a''))"

section \<open>Scenes used in the examples\<close>

text \<open>
  An open field: no mesh for a ray to meet, no light or dark zone, no sound. A guard and
  the target, each as constructed, at the origin with no patrol route.
\<close>

definition openField :: StealthSystem where
  "openField = newStealthSystem (\<lambda>origin direction far. []) \<lparr>lightZones = [], darkZones = []\<rparr>"

definition guardAtOrigin :: enemy where
  "guardAtOrigin = newEnemy 1 \<lparr>vx = 0, vy = 0, vz = 0\<rparr> [] False"

definition targetAtOrigin :: enemy where
  "targetAtOrigin = newEnemy 2 \<lparr>vx = 0, vy = 0, vz = 0\<rparr> [] True"

text \<open>
  A crouching player, standing still. Seen from the origin by an agent of rotation 0
  (forward vector \<open>(0, 0, -1)\<close>), \<open>nearPlayer\<close> is at eye-level distance 5/8 and
  \<open>farPlayer\<close> at 65/96, both at the angle \<open>arccos (3 / 5)\<close>. \<open>shortSightedGuard\<close>
  has exactly the range at which \<open>nearPlayer\<close> stands.
\<close>

definition crouchingAt :: "vec3 \<Rightarrow> player" where
  "crouchingAt pos = newPlayer\<lparr>p_position := pos, p_isCrouching := True\<rparr>"

definition nearPlayer :: player where
  "nearPlayer = crouchingAt \<lparr>vx = 0, vy = 0, vz = - (3 / 8)\<rparr>"

definition farPlayer :: player where
  "farPlayer = crouchingAt \<lparr>vx = 5 / 24, vy = 0, vz = - (13 / 32)\<rparr>"

definition shortSightedGuard :: enemy where
  "shortSightedGuard = guardAtOrigin\<lparr>detectionRange := 5 / 8\<rparr>"

definition deadPlayer :: player where
  "deadPlayer = newPlayer\<lparr>p_isAlive := False\<rparr>"

text \<open>
  Guards in the middle of the game: one that has investigated the origin for 4.99
  seconds, one whose level will decay to 0.35 in a tick of 0.02 seconds, one that was
  wounded and then killed, and one in Combat whose level the loss of its target has set
  to 0.5.
\<close>

definition investigator :: enemy where
  "investigator = guardAtOrigin\<lparr>alertLevel := 0.5, alertState := SUSPICIOUS,
     lastKnownPlayerPos := Some \<lparr>vx = 0, vy = 0, vz = 0\<rparr>, investigateTime := 4.99\<rparr>"

definition suspect :: enemy where
  "suspect = guardAtOrigin\<lparr>alertLevel := 0.353, alertState := SUSPICIOUS\<rparr>"

definition fallenGuard :: enemy where
  "fallenGuard = snd (takeDamage 60 False (snd (takeDamage 60 False guardAtOrigin)))"

definition lostTarget :: enemy where
  "lostTarget = guardAtOrigin\<lparr>alertLevel := 0.5, alertState := COMBAT\<rparr>"


definition behindPlayer :: player where
  "behindPlayer = crouchingAt \<lparr>vx = 0, vy = 0, vz = 3 / 8\<rparr>"

definition distantPlayer :: player where
  "distantPlayer = crouchingAt \<lparr>vx = 0, vy = 0, vz = - 20\<rparr>"




section \<open>Geometry of a sighting\<close>

text \<open>
  The eyes of agent and player are never at the same height (1 against 0.5 or 1.2), so
  their distance is positive, and the direction to the player is never the horizontal
  forward vector of the agent: the angle between them is positive. Hence the two
  divisions of \<^verbatim>\<open>checkDetection\<close> never divide by zero once the range check and
  the angle check have passed.
\<close>

lemma cd_distance_sq:
  "(cd_distance e p)\<^sup>2 =
     (vx (position e) - vx (p_position p))\<^sup>2
     + (1 - (if p_isCrouching p then 0.5 else 1.2))\<^sup>2
     + (vz (position e) - vz (p_position p))\<^sup>2"
  by (simp add: cd_distance_def distanceTo_def cd_enemyPos_def cd_playerPos_def Let_def
      power2_eq_square)

lemma cd_distance_pos: "0 < cd_distance e p"
proof -
  have "0 < (1 - (if p_isCrouching p then 0.5 else 1.2 :: real))\<^sup>2"
    by simp
  then have "0 < (cd_distance e p)\<^sup>2"
    unfolding cd_distance_sq
    by (intro add_pos_nonneg [OF add_nonneg_pos]) simp_all
  moreover have "0 \<le> cd_distance e p"
    by (simp add: cd_distance_def distanceTo_def Let_def)
  ultimately show ?thesis
    by (cases "cd_distance e p = 0") simp_all
qed

lemma unit_combination_le:
  fixes dx dz s c :: real
  assumes "s\<^sup>2 + c\<^sup>2 = 1"
  shows "(dx * s + dz * c)\<^sup>2 \<le> dx\<^sup>2 + dz\<^sup>2"
proof -
  have "dx\<^sup>2 + dz\<^sup>2 - (dx * s + dz * c)\<^sup>2
          = (dx * c - dz * s)\<^sup>2 + (dx\<^sup>2 + dz\<^sup>2) * (1 - (s\<^sup>2 + c\<^sup>2))"
    by (simp add: power2_eq_square algebra_simps)
  also have "\<dots> = (dx * c - dz * s)\<^sup>2"
    by (simp add: assms)
  finally have "dx\<^sup>2 + dz\<^sup>2 - (dx * s + dz * c)\<^sup>2 \<ge> 0"
    by simp
  then show ?thesis
    by linarith
qed

lemma planar_cauchy:
  fixes dx dz r :: real
  shows "(dx * sin r + dz * cos r)\<^sup>2 \<le> dx\<^sup>2 + dz\<^sup>2"
  by (rule unit_combination_le) simp

lemma cd_dot_bounds:
  fixes e :: enemy and p :: player
  defines "d \<equiv> subVectors (cd_playerPos p) (cd_enemyPos e)"
  defines "f \<equiv> \<lparr>vx = - sin (rotation e), vy = 0, vz = - cos (rotation e)\<rparr>"
  shows "\<bar>dot (normalize d) f\<bar> < 1"
proof -
  let ?L = "cd_distance e p"
  let ?a = "vx d * sin (rotation e) + vz d * cos (rotation e)"
  have Lpos: "0 < ?L" by (rule cd_distance_pos)
  have len: "lengthVec d = ?L"
    unfolding d_def lengthVec_def cd_distance_def distanceTo_def subVectors_def Let_def
    by (rule arg_cong[where f = sqrt]) (simp add: algebra_simps)
  have nrm: "normalize d = \<lparr>vx = vx d / ?L, vy = vy d / ?L, vz = vz d / ?L\<rparr>"
    using Lpos by (simp add: normalize_def len Let_def)
  have dotv: "dot (normalize d) f = - (?a / ?L)"
    unfolding nrm by (simp add: dot_def f_def add_divide_distrib)
  have "?a\<^sup>2 \<le> (vx d)\<^sup>2 + (vz d)\<^sup>2" by (rule planar_cauchy)
  moreover have "(vx d)\<^sup>2 + (vz d)\<^sup>2 < ?L\<^sup>2"
  proof -
    have "(vx d)\<^sup>2 = (vx (position e) - vx (p_position p))\<^sup>2"
      "(vz d)\<^sup>2 = (vz (position e) - vz (p_position p))\<^sup>2"
      by (simp_all add: d_def subVectors_def cd_enemyPos_def cd_playerPos_def
          power2_eq_square algebra_simps)
    moreover have "0 < (1 - (if p_isCrouching p then 0.5 else 1.2 :: real))\<^sup>2"
      by simp
    ultimately show ?thesis
      unfolding cd_distance_sq by linarith
  qed
  ultimately have "?a\<^sup>2 < ?L\<^sup>2" by linarith
  then have sq: "\<bar>?a\<bar>\<^sup>2 < ?L\<^sup>2" by (simp only: power2_abs)
  have "\<bar>?a\<bar> < ?L"
  proof (rule power2_less_imp_less)
    show "\<bar>?a\<bar>\<^sup>2 < ?L\<^sup>2" by (rule sq)
    show "0 \<le> ?L" using Lpos by (rule less_imp_le)
  qed
  then have "\<bar>?a\<bar> / ?L < 1"
    using Lpos by (simp only: divide_less_eq_1_pos)
  moreover have "\<bar>- (?a / ?L)\<bar> = \<bar>?a\<bar> / ?L"
    using Lpos by (simp only: abs_minus_cancel abs_divide abs_of_pos)
  ultimately show ?thesis
    by (simp only: dotv)
qed

lemma cd_angle_pos: "0 < cd_angle e p"
proof -
  let ?c = "dot (normalize (subVectors (cd_playerPos p) (cd_enemyPos e)))
              \<lparr>vx = - sin (rotation e), vy = 0, vz = - cos (rotation e)\<rparr>"
  have "\<bar>?c\<bar> < 1" by (rule cd_dot_bounds)
  then have "- 1 \<le> ?c" "?c < 1" by linarith+
  then have "arccos 1 < arccos ?c"
    by (intro arccos_less_arccos) simp_all
  then show ?thesis
    by (simp add: cd_angle_def Let_def)
qed

lemma checkDetection_divisors_pos:
  assumes "cd_distance e p \<le> detectionRange e" and "cd_angle e p \<le> detectionAngle e"
  shows "0 < detectionRange e" and "0 < detectionAngle e"
  using assms cd_distance_pos [of e p] cd_angle_pos [of e p] by linarith+







lemma detectionSpeed_increasing:
  "detectionSpeed IDLE < detectionSpeed SUSPICIOUS"
  "detectionSpeed SUSPICIOUS < detectionSpeed ALERTED"
  "detectionSpeed ALERTED < detectionSpeed COMBAT"
  by simp_all

lemma detectionSpeed_pos: "0 < detectionSpeed s"
  by (cases s) simp_all

lemma getVisibilityMultiplier_pos: "0 < getVisibilityMultiplier p"
  by (simp add: getVisibilityMultiplier_def)

lemma getLightingModifier_pos: "0 < getLightingModifier lb pos"
  by (simp add: getLightingModifier_def)

lemma checkDetection_in_view:
  assumes "p_isAlive p" and "cd_distance e p \<le> detectionRange e"
    and "cd_angle e p \<le> detectionAngle e"
    and "hasLineOfSight ss (cd_enemyPos e) (cd_playerPos p)"
  shows "checkDetection ss e p deltaTime =
           (2 - cd_distance e p / detectionRange e)
           * (detectionSpeed (alertState e)
              * (0.5 + 0.5 * (1 - cd_angle e p / detectionAngle e))
              * getVisibilityMultiplier p
              * getLightingModifier (levelBuilder ss) (p_position p)
              * deltaTime)"
  using assms by (simp add: checkDetection_def Let_def)

lemma view_factor_pos:
  assumes "cd_angle e p \<le> detectionAngle e" and "0 < deltaTime"
  shows "0 < detectionSpeed (alertState e)
              * (0.5 + 0.5 * (1 - cd_angle e p / detectionAngle e))
              * getVisibilityMultiplier p
              * getLightingModifier (levelBuilder ss) (p_position p)
              * deltaTime"
proof -
  have half: "0 < detectionAngle e"
    using cd_angle_pos [of e p] assms(1) by linarith
  then have "cd_angle e p / detectionAngle e \<le> 1"
    using assms(1) by (simp only: divide_le_eq_1_pos)
  then have "0 \<le> 1 - cd_angle e p / detectionAngle e"
    by linarith
  then have "0 \<le> 0.5 * (1 - cd_angle e p / detectionAngle e)"
    by (intro mult_nonneg_nonneg) simp_all
  then have "0 < 0.5 + 0.5 * (1 - cd_angle e p / detectionAngle e)"
    by (intro add_pos_nonneg) simp_all
  then show ?thesis
    using detectionSpeed_pos getVisibilityMultiplier_pos getLightingModifier_pos assms(2)
    by (intro mult_pos_pos)
qed

lemma checkDetection_nonneg:
  assumes "0 \<le> deltaTime"
  shows "0 \<le> checkDetection ss e p deltaTime"
proof (cases "p_isAlive p \<and> cd_distance e p \<le> detectionRange e \<and> cd_angle e p \<le> detectionAngle e
                \<and> hasLineOfSight ss (cd_enemyPos e) (cd_playerPos p)")
  case False
  then show ?thesis
    by (auto simp: checkDetection_def Let_def)
next
  case True
  show ?thesis
  proof (cases "deltaTime = 0")
    case zero: True
    then show ?thesis
      by (simp add: checkDetection_def Let_def)
  next
    case False
    then have pos: "0 < deltaTime"
      using assms by simp
    have rpos: "0 < detectionRange e"
      using cd_distance_pos [of e p] True by linarith
    then have "cd_distance e p / detectionRange e \<le> 1"
      using True by (simp only: divide_le_eq_1_pos)
    then have near: "0 \<le> 2 - cd_distance e p / detectionRange e"
      by linarith
    have rest: "0 < detectionSpeed (alertState e)
              * (0.5 + 0.5 * (1 - cd_angle e p / detectionAngle e))
              * getVisibilityMultiplier p
              * getLightingModifier (levelBuilder ss) (p_position p)
              * deltaTime"
      using True pos by (intro view_factor_pos) simp_all
    have "0 \<le> (2 - cd_distance e p / detectionRange e)
              * (detectionSpeed (alertState e)
              * (0.5 + 0.5 * (1 - cd_angle e p / detectionAngle e))
              * getVisibilityMultiplier p
              * getLightingModifier (levelBuilder ss) (p_position p)
              * deltaTime)"
      by (rule mult_nonneg_nonneg [OF near less_imp_le [OF rest]])
    then show ?thesis
      using True by (simp only: checkDetection_in_view)
  qed
qed

subsection \<open>The example sightings\<close>

lemma sqrt_25_64: "sqrt (25 / 64) = 5 / 8"
  by (rule real_sqrt_unique) (simp_all add: power2_eq_square)

lemma sqrt_4225_9216: "sqrt (4225 / 9216) = 65 / 96"
  by (rule real_sqrt_unique) (simp_all add: power2_eq_square)

lemma nearPlayer_distance:
  assumes "position e = \<lparr>vx = 0, vy = 0, vz = 0\<rparr>"
  shows "cd_distance e nearPlayer = 5 / 8"
proof -
  have "cd_distance e nearPlayer = sqrt (25 / 64)"
    by (simp add: cd_distance_def distanceTo_def cd_enemyPos_def cd_playerPos_def Let_def
        assms nearPlayer_def crouchingAt_def newPlayer_def)
  then show ?thesis by (simp only: sqrt_25_64)
qed

lemma farPlayer_distance:
  assumes "position e = \<lparr>vx = 0, vy = 0, vz = 0\<rparr>"
  shows "cd_distance e farPlayer = 65 / 96"
proof -
  have "cd_distance e farPlayer = sqrt (4225 / 9216)"
    by (simp add: cd_distance_def distanceTo_def cd_enemyPos_def cd_playerPos_def Let_def
        assms farPlayer_def crouchingAt_def newPlayer_def)
  then show ?thesis by (simp only: sqrt_4225_9216)
qed

lemma nearPlayer_angle:
  assumes "position e = \<lparr>vx = 0, vy = 0, vz = 0\<rparr>" and "rotation e = 0"
  shows "cd_angle e nearPlayer = arccos (3 / 5)"
proof -
  have len: "lengthVec \<lparr>vx = 0, vy = - (1 / 2), vz = - (3 / 8)\<rparr> = 5 / 8"
  proof -
    have "lengthVec \<lparr>vx = 0, vy = - (1 / 2), vz = - (3 / 8)\<rparr> = sqrt (25 / 64)"
      by (simp add: lengthVec_def)
    then show ?thesis by (simp only: sqrt_25_64)
  qed
  have sub: "subVectors (cd_playerPos nearPlayer) (cd_enemyPos e)
               = \<lparr>vx = 0, vy = - (1 / 2), vz = - (3 / 8)\<rparr>"
    by (simp add: subVectors_def cd_enemyPos_def cd_playerPos_def assms
        nearPlayer_def crouchingAt_def newPlayer_def)
  show ?thesis
    unfolding cd_angle_def sub Let_def assms(2)
    by (simp add: normalize_def len dot_def)
qed

lemma farPlayer_angle:
  assumes "position e = \<lparr>vx = 0, vy = 0, vz = 0\<rparr>" and "rotation e = 0"
  shows "cd_angle e farPlayer = arccos (3 / 5)"
proof -
  have len: "lengthVec \<lparr>vx = 5 / 24, vy = - (1 / 2), vz = - (13 / 32)\<rparr> = 65 / 96"
  proof -
    have "lengthVec \<lparr>vx = 5 / 24, vy = - (1 / 2), vz = - (13 / 32)\<rparr> = sqrt (4225 / 9216)"
      by (simp add: lengthVec_def)
    then show ?thesis by (simp only: sqrt_4225_9216)
  qed
  have sub: "subVectors (cd_playerPos farPlayer) (cd_enemyPos e)
               = \<lparr>vx = 5 / 24, vy = - (1 / 2), vz = - (13 / 32)\<rparr>"
    by (simp add: subVectors_def cd_enemyPos_def cd_playerPos_def assms
        farPlayer_def crouchingAt_def newPlayer_def)
  show ?thesis
    unfolding cd_angle_def sub Let_def assms(2)
    by (simp add: normalize_def len dot_def)
qed

lemma guardAtOrigin_place:
  "position guardAtOrigin = \<lparr>vx = 0, vy = 0, vz = 0\<rparr>" "rotation guardAtOrigin = 0"
  "detectionRange guardAtOrigin = 12" "detectionAngle guardAtOrigin = pi / 3"
  "alertState guardAtOrigin = IDLE"
  by (simp_all add: guardAtOrigin_def newEnemy_def)

lemma shortSightedGuard_place:
  "position shortSightedGuard = \<lparr>vx = 0, vy = 0, vz = 0\<rparr>" "rotation shortSightedGuard = 0"
  "detectionRange shortSightedGuard = 5 / 8" "detectionAngle shortSightedGuard = pi / 3"
  "alertState shortSightedGuard = IDLE"
  by (simp_all add: shortSightedGuard_def guardAtOrigin_def newEnemy_def)

lemma crouching_players:
  "p_isAlive nearPlayer" "p_isAlive farPlayer"
  "getVisibilityMultiplier nearPlayer = 0.35" "getVisibilityMultiplier farPlayer = 0.35"
  "getLightingModifier (levelBuilder openField) pos = 1"
  by (simp_all add: nearPlayer_def farPlayer_def crouchingAt_def newPlayer_def
      getVisibilityMultiplier_def getLightingModifier_def isInLightZone_def isInDarkZone_def
      openField_def newStealthSystem_def)

lemma arccos_three_fifths: "arccos (3 / 5) \<le> pi / 3"
proof -
  have "arccos (3 / 5) \<le> arccos (1 / 2)"
    by (rule arccos_le_arccos) simp_all
  also have "arccos (1 / 2) = arccos (cos (pi / 3))"
    by (simp only: cos_60)
  also have "\<dots> = pi / 3"
    by (rule arccos_cos) simp_all
  finally show ?thesis .
qed


lemma openField_sight: "hasLineOfSight openField from to"
  by (simp add: hasLineOfSight_def openField_def newStealthSystem_def Let_def)

lemma more_crouching_players:
  "p_isAlive behindPlayer" "p_isAlive distantPlayer"
  "p_isCrouching nearPlayer" "p_isCrouching behindPlayer" "p_isCrouching distantPlayer"
  "p_position nearPlayer = \<lparr>vx = 0, vy = 0, vz = - (3 / 8)\<rparr>"
  "p_position behindPlayer = \<lparr>vx = 0, vy = 0, vz = 3 / 8\<rparr>"
  "p_position distantPlayer = \<lparr>vx = 0, vy = 0, vz = - 20\<rparr>"
  by (simp_all add: nearPlayer_def behindPlayer_def distantPlayer_def crouchingAt_def
      newPlayer_def)


section \<open>Visual detection\<close>



text \<open>
  Claim C4, as the code has it. Take two sightings of living players by one agent that
  differ in distance only: same angle (within the detection angle), both in line of
  sight, same visibility multiplier and lighting, same positive deltaTime. If the farther
  one is within the detection range, up to and including the range itself, its rate is
  strictly smaller than the nearer one's and still positive; exactly at the range the
  rate is base rate * angle factor * visibility * lighting * deltaTime (the distance
  factor is 1, not 0); strictly beyond the range the rate is 0.
\<close>

theorem checkDetection_distance:
  assumes "p_isAlive p1" and "p_isAlive p2"
    and "cd_angle e p1 = cd_angle e p2" and "cd_angle e p1 \<le> detectionAngle e"
    and "hasLineOfSight ss (cd_enemyPos e) (cd_playerPos p1)"
    and "hasLineOfSight ss (cd_enemyPos e) (cd_playerPos p2)"
    and "getVisibilityMultiplier p1 = getVisibilityMultiplier p2"
    and "getLightingModifier (levelBuilder ss) (p_position p1)
           = getLightingModifier (levelBuilder ss) (p_position p2)"
    and "0 < deltaTime"
    and "cd_distance e p1 < cd_distance e p2"
  shows "(cd_distance e p2 \<le> detectionRange e \<longrightarrow>
            checkDetection ss e p2 deltaTime < checkDetection ss e p1 deltaTime
            \<and> 0 < checkDetection ss e p2 deltaTime)
       \<and> (cd_distance e p2 = detectionRange e \<longrightarrow>
            checkDetection ss e p2 deltaTime =
              detectionSpeed (alertState e)
              * (0.5 + 0.5 * (1 - cd_angle e p2 / detectionAngle e))
              * getVisibilityMultiplier p2
              * getLightingModifier (levelBuilder ss) (p_position p2)
              * deltaTime)
       \<and> (detectionRange e < cd_distance e p2 \<longrightarrow> checkDetection ss e p2 deltaTime = 0)"
proof (intro conjI impI)
  let ?K = "detectionSpeed (alertState e)
              * (0.5 + 0.5 * (1 - cd_angle e p2 / detectionAngle e))
              * getVisibilityMultiplier p2
              * getLightingModifier (levelBuilder ss) (p_position p2)
              * deltaTime"
  have Kpos: "0 < ?K"
    using assms(3,4,9) by (intro view_factor_pos) simp_all
  {
    assume inr: "cd_distance e p2 \<le> detectionRange e"
    have rpos: "0 < detectionRange e"
      using cd_distance_pos [of e p2] inr by linarith
    have c2: "checkDetection ss e p2 deltaTime = (2 - cd_distance e p2 / detectionRange e) * ?K"
      using assms inr by (intro checkDetection_in_view) simp_all
    have "checkDetection ss e p1 deltaTime =
            (2 - cd_distance e p1 / detectionRange e)
            * (detectionSpeed (alertState e)
              * (0.5 + 0.5 * (1 - cd_angle e p1 / detectionAngle e))
              * getVisibilityMultiplier p1
              * getLightingModifier (levelBuilder ss) (p_position p1)
              * deltaTime)"
      using assms inr by (intro checkDetection_in_view) simp_all
    then have c1: "checkDetection ss e p1 deltaTime = (2 - cd_distance e p1 / detectionRange e) * ?K"
      by (simp only: assms(3,7,8))
    have "cd_distance e p1 / detectionRange e < cd_distance e p2 / detectionRange e"
      using assms(10) rpos by (rule divide_strict_right_mono)
    then have "2 - cd_distance e p2 / detectionRange e < 2 - cd_distance e p1 / detectionRange e"
      by linarith
    then show "checkDetection ss e p2 deltaTime < checkDetection ss e p1 deltaTime"
      unfolding c1 c2 using Kpos by (rule mult_strict_right_mono)
    have "cd_distance e p2 / detectionRange e \<le> 1"
      using inr rpos by (simp only: divide_le_eq_1_pos)
    then have "0 < 2 - cd_distance e p2 / detectionRange e"
      by linarith
    then show "0 < checkDetection ss e p2 deltaTime"
      unfolding c2 using Kpos by (rule mult_pos_pos)
  }
  {
    assume atr: "cd_distance e p2 = detectionRange e"
    have rpos: "0 < detectionRange e"
      using cd_distance_pos [of e p2] atr by linarith
    have "checkDetection ss e p2 deltaTime = (2 - cd_distance e p2 / detectionRange e) * ?K"
      using assms atr by (intro checkDetection_in_view) simp_all
    moreover have "cd_distance e p2 / detectionRange e = 1"
      using atr rpos by simp
    ultimately show "checkDetection ss e p2 deltaTime = ?K"
      by simp
  }
  {
    assume "detectionRange e < cd_distance e p2"
    then show "checkDetection ss e p2 deltaTime = 0"
      by (simp add: checkDetection_def Let_def)
  }
qed

text \<open>
  Two crouching players at the same angle from a guard, 0.625 and 65/96 away, both within
  its range of 12: the farther one is detected more slowly, and still detected.
\<close>

theorem checkDetection_distance_witness:
  "cd_distance guardAtOrigin nearPlayer < cd_distance guardAtOrigin farPlayer
   \<and> cd_distance guardAtOrigin farPlayer \<le> detectionRange guardAtOrigin
   \<and> checkDetection openField guardAtOrigin farPlayer (1 / 10)
       < checkDetection openField guardAtOrigin nearPlayer (1 / 10)
   \<and> 0 < checkDetection openField guardAtOrigin farPlayer (1 / 10)"
proof -
  have d1: "cd_distance guardAtOrigin nearPlayer = 5 / 8"
    by (rule nearPlayer_distance) (rule guardAtOrigin_place)
  have d2: "cd_distance guardAtOrigin farPlayer = 65 / 96"
    by (rule farPlayer_distance) (rule guardAtOrigin_place)
  have a1: "cd_angle guardAtOrigin nearPlayer = arccos (3 / 5)"
    by (rule nearPlayer_angle) (rule guardAtOrigin_place)+
  have a2: "cd_angle guardAtOrigin farPlayer = arccos (3 / 5)"
    by (rule farPlayer_angle) (rule guardAtOrigin_place)+
  have "(cd_distance guardAtOrigin farPlayer \<le> detectionRange guardAtOrigin \<longrightarrow>
            checkDetection openField guardAtOrigin farPlayer (1 / 10)
              < checkDetection openField guardAtOrigin nearPlayer (1 / 10)
            \<and> 0 < checkDetection openField guardAtOrigin farPlayer (1 / 10))"
    using checkDetection_distance [of nearPlayer farPlayer guardAtOrigin openField "1 / 10"]
      arccos_three_fifths
    by (simp add: d1 d2 a1 a2 crouching_players guardAtOrigin_place openField_sight)
  then show ?thesis
    by (simp add: d1 d2 guardAtOrigin_place)
qed

text \<open>
  The claim's "exactly 0 at the detection range" fails: a guard whose range is 0.625 and
  a player exactly 0.625 away, in view, accumulate a rate that is not 0.
\<close>

theorem checkDetection_at_range_counterexample:
  "cd_distance shortSightedGuard nearPlayer = detectionRange shortSightedGuard
   \<and> checkDetection openField shortSightedGuard nearPlayer (1 / 10) \<noteq> 0"
proof -
  have d: "cd_distance shortSightedGuard nearPlayer = 5 / 8"
    by (rule nearPlayer_distance) (rule shortSightedGuard_place)
  have a: "cd_angle shortSightedGuard nearPlayer \<le> detectionAngle shortSightedGuard"
    using arccos_three_fifths
    by (simp add: nearPlayer_angle shortSightedGuard_place)
  have "checkDetection openField shortSightedGuard nearPlayer (1 / 10) =
          (2 - cd_distance shortSightedGuard nearPlayer / detectionRange shortSightedGuard)
          * (detectionSpeed (alertState shortSightedGuard)
             * (0.5 + 0.5 * (1 - cd_angle shortSightedGuard nearPlayer
                                  / detectionAngle shortSightedGuard))
             * getVisibilityMultiplier nearPlayer
             * getLightingModifier (levelBuilder openField) (p_position nearPlayer)
             * (1 / 10))"
    using a by (intro checkDetection_in_view)
      (simp_all add: d shortSightedGuard_place crouching_players openField_sight)
  moreover have "0 < detectionSpeed (alertState shortSightedGuard)
             * (0.5 + 0.5 * (1 - cd_angle shortSightedGuard nearPlayer
                                  / detectionAngle shortSightedGuard))
             * getVisibilityMultiplier nearPlayer
             * getLightingModifier (levelBuilder openField) (p_position nearPlayer)
             * (1 / 10)"
    using a by (intro view_factor_pos) simp_all
  ultimately have "0 < checkDetection openField shortSightedGuard nearPlayer (1 / 10)"
    by (simp add: d shortSightedGuard_place)
  then show ?thesis
    by (simp add: d shortSightedGuard_place)
qed

section \<open>Sounds heard\<close>
















subsection \<open>A gunshot 15 units away\<close>










section \<open>Damage\<close>

lemma takeDamage_dead: "\<not> isAlive a \<Longrightarrow> takeDamage amount isHeadshot a = (False, a)"
  by (simp add: takeDamage_def)

lemma takeDamage_isAlive_mono: "\<not> isAlive a \<Longrightarrow> \<not> isAlive (snd (takeDamage amount isHeadshot a))"
  by (simp add: takeDamage_def)

lemma takeDamage_killed_iff:
  "fst (takeDamage amount isHeadshot a) \<longleftrightarrow> isAlive a \<and> \<not> isAlive (snd (takeDamage amount isHeadshot a))"
  by (simp add: takeDamage_def die_def Let_def)

lemma takeDamages_dead:
  "\<not> isAlive a \<Longrightarrow> takeDamages calls a = (replicate (length calls) False, a)"
  by (induction calls) (auto simp: takeDamage_dead)

lemma takeDamages_kills:
  "length (filter id (fst (takeDamages calls a)))
     = (if isAlive a \<and> \<not> isAlive (snd (takeDamages calls a)) then 1 else 0)"
proof (induction calls arbitrary: a)
  case Nil
  show ?case by simp
next
  case (Cons c calls)
  obtain amount isHeadshot where c: "c = (amount, isHeadshot)"
    by (cases c)
  obtain killed a' where t: "takeDamage amount isHeadshot a = (killed, a')"
    by (cases "takeDamage amount isHeadshot a")
  have k: "killed \<longleftrightarrow> isAlive a \<and> \<not> isAlive a'"
    using takeDamage_killed_iff [of amount isHeadshot a] by (simp add: t)
  obtain flags a'' where r: "takeDamages calls a' = (flags, a'')"
    by (cases "takeDamages calls a'")
  have unfolded: "takeDamages (c # calls) a = (killed # flags, a'')"
    by (simp add: c t r)
  show ?case
  proof (cases "isAlive a'")
    case True
    then have "isAlive a"
      using takeDamage_isAlive_mono [of a amount isHeadshot] by (auto simp: t)
    with True k Cons.IH [of a'] show ?thesis
      by (simp add: unfolded r)
  next
    case False
    with k takeDamages_dead [of a' calls] show ?thesis
      by (simp add: unfolded r)
  qed
qed

text \<open>
  Claim C6, as the code has it. On a living agent \<^verbatim>\<open>takeDamage\<close> doubles the amount
  of a headshot and subtracts it from the health. If the health stays above 0 the call
  sets the alert level to 1 and the state to Combat and returns false. If the health
  reaches 0 or less the agent dies and the call returns true; level and state are then
  left as they were. On a dead agent the call changes nothing and returns false, so in
  any sequence of calls at most one reports a kill: exactly one when the agent was alive
  before and is dead after.
\<close>

theorem takeDamage_contract:
  "(isAlive a \<and> 0 < health a - (if isHeadshot then amount * 2 else amount) \<longrightarrow>
      takeDamage amount isHeadshot a =
        (False, a\<lparr>health := health a - (if isHeadshot then amount * 2 else amount),
                   alertLevel := 1, alertState := COMBAT\<rparr>))
   \<and> (isAlive a \<and> health a - (if isHeadshot then amount * 2 else amount) \<le> 0 \<longrightarrow>
      takeDamage amount isHeadshot a =
        (True, a\<lparr>health := health a - (if isHeadshot then amount * 2 else amount),
                  isAlive := False\<rparr>))
   \<and> (\<not> isAlive a \<longrightarrow> takeDamage amount isHeadshot a = (False, a))
   \<and> length (filter id (fst (takeDamages calls a)))
         = (if isAlive a \<and> \<not> isAlive (snd (takeDamages calls a)) then 1 else 0)
   \<and> (\<not> isAlive a \<longrightarrow> takeDamages calls a = (replicate (length calls) False, a))"
proof (intro conjI impI)
  show "length (filter id (fst (takeDamages calls a)))
         = (if isAlive a \<and> \<not> isAlive (snd (takeDamages calls a)) then 1 else 0)"
    by (rule takeDamages_kills)
qed (simp_all add: takeDamage_def die_def Let_def takeDamages_dead)

text \<open>
  The target (health 50): a headshot of 40 kills it, a second one is ignored, and a body
  shot of 40 leaves it with health 10 in Combat at level 1.
\<close>

theorem takeDamage_contract_witness:
  "takeDamage 40 True targetAtOrigin
     = (True, targetAtOrigin\<lparr>health := - 30, isAlive := False\<rparr>)
   \<and> takeDamage 40 True (targetAtOrigin\<lparr>health := - 30, isAlive := False\<rparr>)
     = (False, targetAtOrigin\<lparr>health := - 30, isAlive := False\<rparr>)
   \<and> takeDamage 40 False targetAtOrigin
     = (False, targetAtOrigin\<lparr>health := 10, alertLevel := 1, alertState := COMBAT\<rparr>)"
proof -
  have t: "isAlive targetAtOrigin" "health targetAtOrigin = 50"
    by (simp_all add: targetAtOrigin_def newEnemy_def)
  have "takeDamage 40 True targetAtOrigin
          = (True, targetAtOrigin\<lparr>health := - 30, isAlive := False\<rparr>)"
    using takeDamage_contract [of targetAtOrigin True 40] by (simp add: t)
  moreover have "takeDamage 40 True (targetAtOrigin\<lparr>health := - 30, isAlive := False\<rparr>)
          = (False, targetAtOrigin\<lparr>health := - 30, isAlive := False\<rparr>)"
    using takeDamage_contract [of "targetAtOrigin\<lparr>health := - 30, isAlive := False\<rparr>" True 40]
    by simp
  moreover have "takeDamage 40 False targetAtOrigin
          = (False, targetAtOrigin\<lparr>health := 10, alertLevel := 1, alertState := COMBAT\<rparr>)"
    using takeDamage_contract [of targetAtOrigin False 40] by (simp add: t)
  ultimately show ?thesis by simp
qed

text \<open>
  The claim's "forces alertLevel to 1.0 and alertState to Combat" fails for the hit that
  kills: the target killed by the headshot of 40 is still Idle at level 0.
\<close>

theorem takeDamage_lethal_counterexample:
  "isAlive targetAtOrigin
   \<and> fst (takeDamage 40 True targetAtOrigin)
   \<and> alertLevel (snd (takeDamage 40 True targetAtOrigin)) = 0
   \<and> alertState (snd (takeDamage 40 True targetAtOrigin)) = IDLE"
  by (simp add: takeDamage_def die_def Let_def targetAtOrigin_def newEnemy_def)

section \<open>The per-tick update: what each block changes\<close>

lemma facePosition_fields:
  "alertLevel (facePosition t d a) = alertLevel a"
  "alertState (facePosition t d a) = alertState a"
  "lastKnownPlayerPos (facePosition t d a) = lastKnownPlayerPos a"
  "investigateTime (facePosition t d a) = investigateTime a"
  "investigateDuration (facePosition t d a) = investigateDuration a"
  "searchTime (facePosition t d a) = searchTime a"
  "isAlive (facePosition t d a) = isAlive a"
  "patrolRoute (facePosition t d a) = patrolRoute a"
  "currentPatrolIndex (facePosition t d a) = currentPatrolIndex a"
  "position (facePosition t d a) = position a"
  by (simp_all add: facePosition_def Let_def)

lemma moveTowards_fields:
  "alertLevel (moveTowards t s d cs a) = alertLevel a"
  "alertState (moveTowards t s d cs a) = alertState a"
  "lastKnownPlayerPos (moveTowards t s d cs a) = lastKnownPlayerPos a"
  "investigateTime (moveTowards t s d cs a) = investigateTime a"
  "investigateDuration (moveTowards t s d cs a) = investigateDuration a"
  "searchTime (moveTowards t s d cs a) = searchTime a"
  "isAlive (moveTowards t s d cs a) = isAlive a"
  "patrolRoute (moveTowards t s d cs a) = patrolRoute a"
  "currentPatrolIndex (moveTowards t s d cs a) = currentPatrolIndex a"
  by (simp_all add: moveTowards_def Let_def facePosition_fields)

lemma shoot_fields:
  "alertLevel (fst (shoot pl rnd a)) = alertLevel a"
  "alertState (fst (shoot pl rnd a)) = alertState a"
  "lastKnownPlayerPos (fst (shoot pl rnd a)) = lastKnownPlayerPos a"
  "patrolRoute (fst (shoot pl rnd a)) = patrolRoute a"
  "currentPatrolIndex (fst (shoot pl rnd a)) = currentPatrolIndex a"
  "investigateDuration (fst (shoot pl rnd a)) = investigateDuration a"
  by (simp_all add: shoot_def Let_def)

lemma update_cooldown_fields:
  "alertLevel (update_cooldown d a) = alertLevel a"
  "alertState (update_cooldown d a) = alertState a"
  "lastKnownPlayerPos (update_cooldown d a) = lastKnownPlayerPos a"
  "investigateTime (update_cooldown d a) = investigateTime a"
  "investigateDuration (update_cooldown d a) = investigateDuration a"
  "patrolRoute (update_cooldown d a) = patrolRoute a"
  "currentPatrolIndex (update_cooldown d a) = currentPatrolIndex a"
  by (simp_all add: update_cooldown_def)

lemma patrol_fields:
  assumes "patrol d cs now a = Inr a'"
  shows "alertLevel a' = alertLevel a" "alertState a' = alertState a"
    "lastKnownPlayerPos a' = lastKnownPlayerPos a" "patrolRoute a' = patrolRoute a"
    "investigateTime a' = investigateTime a" "investigateDuration a' = investigateDuration a"
  using assms by (auto simp: patrol_def Let_def moveTowards_fields split: if_splits)

lemma patrol_total:
  assumes "patrolRoute a = [] \<or> currentPatrolIndex a < length (patrolRoute a)"
  shows "\<exists>a'. patrol d cs now a = Inr a'
           \<and> (patrolRoute a' = [] \<or> currentPatrolIndex a' < length (patrolRoute a'))"
  using assms by (auto simp: patrol_def Let_def moveTowards_fields)

lemma investigate_fields:
  assumes "investigate d cs now a = Inr a'"
  shows "alertState a' = alertState a" "patrolRoute a' = patrolRoute a"
    "investigateDuration a' = investigateDuration a"
    "alertLevel a' =
       (if lastKnownPlayerPos a \<noteq> None \<and> investigateTime a + d > investigateDuration a
        then 0 else alertLevel a)"
    "lastKnownPlayerPos a' =
       (if investigateTime a + d > investigateDuration a then None else lastKnownPlayerPos a)"
  using assms
  by (auto simp: investigate_def Let_def moveTowards_fields patrol_fields
      split: option.splits if_splits)

lemma investigate_total:
  assumes "patrolRoute a = [] \<or> currentPatrolIndex a < length (patrolRoute a)"
  shows "\<exists>a'. investigate d cs now a = Inr a'
           \<and> (patrolRoute a' = [] \<or> currentPatrolIndex a' < length (patrolRoute a'))"
proof (cases "lastKnownPlayerPos a")
  case None
  then show ?thesis
    using patrol_total [OF assms, of d cs now] by (simp add: investigate_def)
next
  case (Some lastKnown)
  then show ?thesis
    using assms by (simp add: investigate_def Let_def moveTowards_fields)
qed

lemma search_fields:
  "alertState (search d pl cs a) = alertState a"
  "patrolRoute (search d pl cs a) = patrolRoute a"
  "currentPatrolIndex (search d pl cs a) = currentPatrolIndex a"
  "lastKnownPlayerPos (search d pl cs a) = lastKnownPlayerPos a"
  "investigateDuration (search d pl cs a) = investigateDuration a"
  "alertLevel (search d pl cs a) =
     (if searchTime a + d > 10 then alertLevel a - 0.3 else alertLevel a)"
  by (simp_all add: search_def Let_def moveTowards_fields split: option.splits)

lemma combat_fields:
  "alertState (fst (combat d pl cs rnd a)) = alertState a"
  "patrolRoute (fst (combat d pl cs rnd a)) = patrolRoute a"
  "currentPatrolIndex (fst (combat d pl cs rnd a)) = currentPatrolIndex a"
  "investigateDuration (fst (combat d pl cs rnd a)) = investigateDuration a"
  "alertLevel (fst (combat d pl cs rnd a)) = (if p_isAlive pl then alertLevel a else 0.5)"
  "lastKnownPlayerPos (fst (combat d pl cs rnd a)) =
     (if p_isAlive pl then Some (p_position pl) else lastKnownPlayerPos a)"
  by (simp_all add: combat_def Let_def moveTowards_fields facePosition_fields shoot_fields)

lemma getStateFromLevel_thresholds:
  "getStateFromLevel level = COMBAT \<longleftrightarrow> 1 \<le> level"
  "getStateFromLevel level = ALERTED \<longleftrightarrow> 0.7 \<le> level \<and> level < 1"
  "getStateFromLevel level = SUSPICIOUS \<longleftrightarrow> 0.3 \<le> level \<and> level < 0.7"
  "getStateFromLevel level = IDLE \<longleftrightarrow> level < 0.3"
  by (auto simp: getStateFromLevel_def combatThreshold_def alertedThreshold_def
      suspiciousThreshold_def)

lemma update_decay_level:
  "alertLevel (update_decay d a) =
     (if alertLevel a > 0 \<and> alertState a \<noteq> COMBAT
      then max 0 (alertLevel a - alertDecayRate a * d) else alertLevel a)"
  by (simp add: update_decay_def Let_def max_def)

lemma update_decay_fields:
  "alertState (update_decay d a) = alertState a"
  "position (update_decay d a) = position a"
  "rotation (update_decay d a) = rotation a"
  "detectionRange (update_decay d a) = detectionRange a"
  "detectionAngle (update_decay d a) = detectionAngle a"
  "lastKnownPlayerPos (update_decay d a) = lastKnownPlayerPos a"
  "patrolRoute (update_decay d a) = patrolRoute a"
  "currentPatrolIndex (update_decay d a) = currentPatrolIndex a"
  "investigateTime (update_decay d a) = investigateTime a"
  "investigateDuration (update_decay d a) = investigateDuration a"
  "searchTime (update_decay d a) = searchTime a"
  by (simp_all add: update_decay_def Let_def)

lemma checkDetection_after_decay:
  "checkDetection ss (update_decay d a) pl deltaTime = checkDetection ss a pl deltaTime"
proof -
  have eye: "cd_enemyPos (update_decay d a) = cd_enemyPos a"
    by (simp add: cd_enemyPos_def update_decay_fields)
  have "cd_distance (update_decay d a) pl = cd_distance a pl"
    and "cd_angle (update_decay d a) pl = cd_angle a pl"
    by (simp_all add: cd_distance_def cd_angle_def eye update_decay_fields)
  then show ?thesis
    by (simp add: checkDetection_def Let_def eye update_decay_fields)
qed

lemma update_detect_level:
  "alertLevel (update_detect d pl ss a) =
     (if checkDetection ss a pl d > 0 then alertLevel a + checkDetection ss a pl d
      else alertLevel a)"
  by (simp add: update_detect_def Let_def)

lemma update_detect_lastKnown:
  "lastKnownPlayerPos (update_detect d pl ss a) =
     (if checkDetection ss a pl d > 0 then Some (p_position pl) else lastKnownPlayerPos a)"
  by (simp add: update_detect_def Let_def)

lemma update_detect_fields:
  "patrolRoute (update_detect d pl ss a) = patrolRoute a"
  "currentPatrolIndex (update_detect d pl ss a) = currentPatrolIndex a"
  "investigateTime (update_detect d pl ss a) = investigateTime a"
  "investigateDuration (update_detect d pl ss a) = investigateDuration a"
  "searchTime (update_detect d pl ss a) = searchTime a"
  by (simp_all add: update_detect_def Let_def)

lemma update_sound_level: "alertLevel a \<le> alertLevel (update_sound ss now a)"
  by (simp add: update_sound_def Let_def split: option.splits)

lemma update_sound_lastKnown:
  "lastKnownPlayerPos a = Some q \<Longrightarrow> lastKnownPlayerPos (update_sound ss now a) = Some q"
  by (simp add: update_sound_def Let_def split: option.splits)

lemma update_sound_fields:
  "patrolRoute (update_sound ss now a) = patrolRoute a"
  "currentPatrolIndex (update_sound ss now a) = currentPatrolIndex a"
  "investigateTime (update_sound ss now a) = investigateTime a"
  "investigateDuration (update_sound ss now a) = investigateDuration a"
  "searchTime (update_sound ss now a) = searchTime a"
  by (simp_all add: update_sound_def Let_def split: option.splits)

lemma update_intake_state:
  "alertState (update_intake d pl ss now a)
     = getStateFromLevel (alertLevel (update_intake d pl ss now a))"
  by (simp add: update_intake_def update_state_def)

lemma update_intake_level_nonneg:
  assumes "0 \<le> alertLevel a"
  shows "0 \<le> alertLevel (update_intake d pl ss now a)"
proof -
  have "0 \<le> alertLevel (update_decay d a)"
    using assms by (simp add: update_decay_level)
  then have "0 \<le> alertLevel (update_detect d pl ss (update_decay d a))"
    by (simp add: update_detect_level)
  also have "\<dots> \<le> alertLevel (update_sound ss now (update_detect d pl ss (update_decay d a)))"
    by (rule update_sound_level)
  finally show ?thesis
    by (simp add: update_intake_def update_state_def)
qed

lemma update_intake_fields:
  "patrolRoute (update_intake d pl ss now a) = patrolRoute a"
  "currentPatrolIndex (update_intake d pl ss now a) = currentPatrolIndex a"
  "investigateTime (update_intake d pl ss now a) = investigateTime a"
  "investigateDuration (update_intake d pl ss now a) = investigateDuration a"
  "searchTime (update_intake d pl ss now a) = searchTime a"
  by (simp_all add: update_intake_def update_state_def update_sound_fields
      update_detect_fields update_decay_fields)

lemma update_intake_lastKnown:
  assumes "0 < checkDetection ss a pl d"
  shows "lastKnownPlayerPos (update_intake d pl ss now a) = Some (p_position pl)"
proof -
  have "lastKnownPlayerPos (update_detect d pl ss (update_decay d a)) = Some (p_position pl)"
    using assms by (simp add: update_detect_lastKnown checkDetection_after_decay)
  then have "lastKnownPlayerPos (update_sound ss now (update_detect d pl ss (update_decay d a)))
               = Some (p_position pl)"
    by (rule update_sound_lastKnown)
  then show ?thesis
    by (simp add: update_intake_def update_state_def)
qed

lemma update_behaviour_cases:
  assumes "update_behaviour d pl cs now rnd b = Inr (a', pl')"
  shows "(alertState b = IDLE \<and> patrol d cs now b = Inr a')
       \<or> (alertState b = SUSPICIOUS \<and> investigate d cs now b = Inr a')
       \<or> (alertState b = ALERTED \<and> a' = search d pl cs b)
       \<or> (alertState b = COMBAT \<and> a' = fst (combat d pl cs rnd b))"
  using assms
  by (cases "alertState b")
     (auto simp: update_behaviour_def map_sum_def split: sum.splits)

lemma update_behaviour_state:
  assumes "update_behaviour d pl cs now rnd b = Inr (a', pl')"
  shows "alertState a' = alertState b"
  using update_behaviour_cases [OF assms]
  by (auto simp: patrol_fields investigate_fields search_fields combat_fields)

lemma update_behaviour_level:
  assumes "update_behaviour d pl cs now rnd b = Inr (a', pl')"
  shows "alertLevel a' =
     (case alertState b of
        IDLE \<Rightarrow> alertLevel b
      | SUSPICIOUS \<Rightarrow>
          if lastKnownPlayerPos b \<noteq> None \<and> investigateTime b + d > investigateDuration b
          then 0 else alertLevel b
      | ALERTED \<Rightarrow> if searchTime b + d > 10 then alertLevel b - 0.3 else alertLevel b
      | COMBAT \<Rightarrow> if p_isAlive pl then alertLevel b else 0.5)"
  using update_behaviour_cases [OF assms]
  by (auto simp: patrol_fields investigate_fields search_fields combat_fields)

lemma update_alive:
  assumes "isAlive a" and "update d pl ss cs now rnd a = Inr (a', pl')"
  shows "\<exists>b'. update_behaviour d pl cs now rnd (update_intake d pl ss now a) = Inr (b', pl')
          \<and> a' = update_cooldown d b'"
  using assms by (auto simp: update_def split: sum.splits)

lemma update_behaviour_total:
  assumes "patrolRoute b = [] \<or> currentPatrolIndex b < length (patrolRoute b)"
  shows "\<exists>a' pl'. update_behaviour d pl cs now rnd b = Inr (a', pl')
           \<and> (patrolRoute a' = [] \<or> currentPatrolIndex a' < length (patrolRoute a'))"
proof (cases "alertState b")
  case IDLE
  then show ?thesis
    using patrol_total [OF assms, of d cs now] by (auto simp: update_behaviour_def)
next
  case SUSPICIOUS
  then show ?thesis
    using investigate_total [OF assms, of d cs now] by (auto simp: update_behaviour_def)
next
  case ALERTED
  then show ?thesis
    using assms by (simp add: update_behaviour_def search_fields)
next
  case COMBAT
  then show ?thesis
    using assms by (cases "combat d pl cs rnd b") (use combat_fields(2,3) [of d pl cs rnd b] in
      \<open>simp add: update_behaviour_def\<close>)
qed

lemma update_total:
  assumes "patrolRoute a = [] \<or> currentPatrolIndex a < length (patrolRoute a)"
  shows "\<exists>a' pl'. update d pl ss cs now rnd a = Inr (a', pl')
           \<and> (patrolRoute a' = [] \<or> currentPatrolIndex a' < length (patrolRoute a'))"
proof (cases "isAlive a")
  case False
  then show ?thesis
    using assms by (simp add: update_def)
next
  case True
  have "patrolRoute (update_intake d pl ss now a) = []
        \<or> currentPatrolIndex (update_intake d pl ss now a)
            < length (patrolRoute (update_intake d pl ss now a))"
    using assms by (simp add: update_intake_fields)
  from update_behaviour_total [OF this, of d pl cs now rnd]
  obtain b' pl' where
    "update_behaviour d pl cs now rnd (update_intake d pl ss now a) = Inr (b', pl')"
    "patrolRoute b' = [] \<or> currentPatrolIndex b' < length (patrolRoute b')"
    by blast
  then show ?thesis
    using True by (simp add: update_def update_cooldown_fields)
qed

lemma update_level_nonneg:
  assumes "0 \<le> alertLevel a" and "update d pl ss cs now rnd a = Inr (a', pl')"
  shows "0 \<le> alertLevel a'"
proof (cases "isAlive a")
  case False
  then show ?thesis
    using assms by (simp add: update_def)
next
  case True
  let ?b = "update_intake d pl ss now a"
  from update_alive [OF True assms(2)] obtain b' where
    beh: "update_behaviour d pl cs now rnd ?b = Inr (b', pl')" and a': "a' = update_cooldown d b'"
    by blast
  have nonneg: "0 \<le> alertLevel ?b"
    using assms(1) by (rule update_intake_level_nonneg)
  have st: "alertState ?b = getStateFromLevel (alertLevel ?b)"
    by (rule update_intake_state)
  have "0 \<le> alertLevel b'"
  proof (cases "alertState ?b")
    case ALERTED
    then have "0.7 \<le> alertLevel ?b"
      using st by (simp add: getStateFromLevel_thresholds)
    then show ?thesis
      using update_behaviour_level [OF beh] ALERTED by simp
  qed (use update_behaviour_level [OF beh] nonneg in simp_all)
  then show ?thesis
    by (simp add: a' update_cooldown_fields)
qed

lemma update_level:
  assumes "isAlive a" and "update d pl ss cs now rnd a = Inr (a', pl')"
  shows "alertLevel a' =
     (case alertState (update_intake d pl ss now a) of
        IDLE \<Rightarrow> alertLevel (update_intake d pl ss now a)
      | SUSPICIOUS \<Rightarrow>
          if lastKnownPlayerPos (update_intake d pl ss now a) \<noteq> None
             \<and> investigateTime a + d > investigateDuration a
          then 0 else alertLevel (update_intake d pl ss now a)
      | ALERTED \<Rightarrow>
          if searchTime a + d > 10 then alertLevel (update_intake d pl ss now a) - 0.3
          else alertLevel (update_intake d pl ss now a)
      | COMBAT \<Rightarrow> if p_isAlive pl then alertLevel (update_intake d pl ss now a) else 0.5)"
proof -
  from update_alive [OF assms] obtain b' where
    beh: "update_behaviour d pl cs now rnd (update_intake d pl ss now a) = Inr (b', pl')"
    and a': "a' = update_cooldown d b'"
    by blast
  have "alertLevel a' = alertLevel b'"
    by (simp add: a' update_cooldown_fields)
  then show ?thesis
    by (simp only: update_behaviour_level [OF beh] update_intake_fields)
qed

lemma quiet_intake:
  "update_intake d deadPlayer openField now a = update_state (update_decay d a)"
proof -
  have "checkDetection openField (update_decay d a) deadPlayer d = 0"
    by (simp add: checkDetection_def deadPlayer_def)
  then have "update_detect d deadPlayer openField (update_decay d a) = update_decay d a"
    by (simp add: update_detect_def)
  moreover have "update_sound openField now (update_decay d a) = update_decay d a"
    by (simp add: update_sound_def checkSoundDetection_def openField_def newStealthSystem_def)
  ultimately show ?thesis
    by (simp add: update_intake_def)
qed

lemma update_gives_up:
  assumes "isAlive a"
    and "alertState (update_intake d pl ss now a) = SUSPICIOUS"
    and "lastKnownPlayerPos (update_intake d pl ss now a) = Some q"
    and "investigateTime a + d > investigateDuration a"
    and "update d pl ss cs now rnd a = Inr (a', pl')"
  shows "alertLevel a' = 0 \<and> lastKnownPlayerPos a' = None \<and> alertState a' = SUSPICIOUS"
proof -
  let ?b = "update_intake d pl ss now a"
  from update_alive [OF assms(1,5)] obtain b' where
    beh: "update_behaviour d pl cs now rnd ?b = Inr (b', pl')" and a': "a' = update_cooldown d b'"
    by blast
  have inv: "investigate d cs now ?b = Inr b'"
    using update_behaviour_cases [OF beh] assms(2) by simp
  show ?thesis
    using investigate_fields [OF inv] assms(2,3,4)
    by (simp add: a' update_cooldown_fields update_intake_fields)
qed

lemma behaviour_isAlive:
  "isAlive (fst (shoot pl rnd a)) = isAlive a"
  "isAlive (update_cooldown d a) = isAlive a"
  "isAlive (search d pl cs a) = isAlive a"
  "isAlive (fst (combat d pl cs rnd a)) = isAlive a"
  "isAlive (update_intake d pl ss now a) = isAlive a"
proof -
  show s: "isAlive (fst (shoot pl rnd a)) = isAlive a" for a
    by (simp add: shoot_def Let_def)
  show "isAlive (update_cooldown d a) = isAlive a"
    by (simp add: update_cooldown_def)
  show "isAlive (search d pl cs a) = isAlive a"
    by (simp add: search_def Let_def moveTowards_fields split: option.splits)
  show "isAlive (fst (combat d pl cs rnd a)) = isAlive a"
    by (simp add: combat_def Let_def moveTowards_fields facePosition_fields s)
  show "isAlive (update_intake d pl ss now a) = isAlive a"
    by (simp add: update_intake_def update_state_def update_sound_def update_detect_def
        update_decay_def Let_def split: option.splits)
qed

lemma patrol_isAlive: "patrol d cs now a = Inr a' \<Longrightarrow> isAlive a' = isAlive a"
  by (auto simp: patrol_def Let_def moveTowards_fields split: if_splits)

lemma investigate_isAlive: "investigate d cs now a = Inr a' \<Longrightarrow> isAlive a' = isAlive a"
  by (auto simp: investigate_def Let_def moveTowards_fields patrol_isAlive
      split: option.splits if_splits)

lemma update_isAlive:
  assumes "update d pl ss cs now rnd a = Inr (a', pl')"
  shows "isAlive a' = isAlive a"
proof (cases "isAlive a")
  case False
  then show ?thesis
    using assms by (simp add: update_def)
next
  case True
  from update_alive [OF True assms] obtain b' where
    beh: "update_behaviour d pl cs now rnd (update_intake d pl ss now a) = Inr (b', pl')"
    and a': "a' = update_cooldown d b'"
    by blast
  have "isAlive b' = isAlive (update_intake d pl ss now a)"
    using update_behaviour_cases [OF beh]
    by (auto simp: patrol_isAlive investigate_isAlive behaviour_isAlive)
  then show ?thesis
    by (simp add: a' behaviour_isAlive)
qed

lemma guardAtOrigin_calm:
  "isAlive guardAtOrigin" "alertLevel guardAtOrigin = 0" "alertState guardAtOrigin = IDLE"
  by (simp_all add: guardAtOrigin_def newEnemy_def)

lemma investigator_fields:
  "isAlive investigator" "alertLevel investigator = 0.5" "alertState investigator = SUSPICIOUS"
  "alertDecayRate investigator = 0.15"
  "lastKnownPlayerPos investigator = Some \<lparr>vx = 0, vy = 0, vz = 0\<rparr>"
  "investigateTime investigator = 4.99" "investigateDuration investigator = 5"
  "patrolRoute investigator = []"
  by (simp_all add: investigator_def guardAtOrigin_def newEnemy_def)

lemma suspect_fields:
  "isAlive suspect" "alertLevel suspect = 0.353" "alertState suspect = SUSPICIOUS"
  "alertDecayRate suspect = 0.15" "lastKnownPlayerPos suspect = None"
  "patrolRoute suspect = []"
  by (simp_all add: suspect_def guardAtOrigin_def newEnemy_def)

text \<open>
  Claim C9. For an agent that is not alive, the update returns at once: the agent, every
  field of it, and the player are unchanged, whatever deltaTime, player, world, clock
  and random draw.
\<close>

theorem update_dead_agent:
  "\<not> isAlive a \<Longrightarrow> update deltaTime pl ss colliders now rnd a = Inr (a, pl)"
  by (simp add: update_def)

theorem update_dead_agent_witness:
  "\<not> isAlive (die guardAtOrigin)
   \<and> update (1 / 60) nearPlayer openField [] 0 0 (die guardAtOrigin)
       = Inr (die guardAtOrigin, nearPlayer)"
proof -
  have dead: "\<not> isAlive (die guardAtOrigin)"
    by (simp add: die_def)
  from dead update_dead_agent [OF dead, of "1 / 60" nearPlayer openField "[]" 0 0]
  show ?thesis by (rule conjI)
qed

text \<open>
  Claim C2, as the code has it. After the update of a living agent returns, its alert
  state is the threshold function of the alert level as it stood when the state was
  recomputed in that tick, after decay and stimulus intake and before the behaviour of
  the state ran. It is the threshold function of the final level whenever that behaviour
  left the level alone: always in Idle, in Suspicious unless the investigation is given
  up, in Alerted unless the search times out, in Combat unless the player is dead. The
  threshold function is Combat iff level \<open>\<ge>\<close> 1.0, Alerted iff 0.7 \<open>\<le>\<close> level < 1.0,
  Suspicious iff 0.3 \<open>\<le>\<close> level < 0.7, Idle iff level < 0.3; the level 0.35 gives
  Suspicious.
\<close>

theorem update_state_is_threshold_of_intake:
  assumes "isAlive a" and "update deltaTime pl ss colliders now rnd a = Inr (a', pl')"
  shows "alertState a' = getStateFromLevel (alertLevel (update_intake deltaTime pl ss now a))
    \<and> (alertState a' = IDLE
        \<or> (alertState a' = SUSPICIOUS
            \<and> (lastKnownPlayerPos (update_intake deltaTime pl ss now a) = None
                \<or> investigateTime a + deltaTime \<le> investigateDuration a))
        \<or> (alertState a' = ALERTED \<and> searchTime a + deltaTime \<le> 10)
        \<or> (alertState a' = COMBAT \<and> p_isAlive pl)
        \<longrightarrow> alertState a' = getStateFromLevel (alertLevel a'))
    \<and> (getStateFromLevel level = COMBAT \<longleftrightarrow> 1 \<le> level)
    \<and> (getStateFromLevel level = ALERTED \<longleftrightarrow> 0.7 \<le> level \<and> level < 1)
    \<and> (getStateFromLevel level = SUSPICIOUS \<longleftrightarrow> 0.3 \<le> level \<and> level < 0.7)
    \<and> (getStateFromLevel level = IDLE \<longleftrightarrow> level < 0.3)
    \<and> getStateFromLevel 0.35 = SUSPICIOUS"
proof -
  let ?b = "update_intake deltaTime pl ss now a"
  from update_alive [OF assms] obtain b' where
    beh: "update_behaviour deltaTime pl colliders now rnd ?b = Inr (b', pl')"
    and a': "a' = update_cooldown deltaTime b'"
    by blast
  have st: "alertState a' = alertState ?b"
    using update_behaviour_state [OF beh] by (simp add: a' update_cooldown_fields)
  have lv: "alertLevel a' = alertLevel b'"
    by (simp add: a' update_cooldown_fields)
  have first: "alertState a' = getStateFromLevel (alertLevel ?b)"
    using st update_intake_state by simp
  have second: "alertState a' = getStateFromLevel (alertLevel a')"
    if "alertState a' = IDLE
        \<or> (alertState a' = SUSPICIOUS
            \<and> (lastKnownPlayerPos ?b = None \<or> investigateTime a + deltaTime \<le> investigateDuration a))
        \<or> (alertState a' = ALERTED \<and> searchTime a + deltaTime \<le> 10)
        \<or> (alertState a' = COMBAT \<and> p_isAlive pl)"
  proof -
    have "alertLevel b' = alertLevel ?b"
      using that update_behaviour_level [OF beh]
      by (auto simp: st update_intake_fields)
    then show ?thesis
      using first by (simp add: lv)
  qed
  show ?thesis
    using first second
    by (simp add: getStateFromLevel_thresholds)
qed

text \<open>
  A guard whose level decays to 0.35 in the tick and that has nothing to investigate:
  after the update it is Suspicious at level 0.35.
\<close>

theorem update_state_is_threshold_of_intake_witness:
  "\<exists>a' pl'. update (1 / 50) deadPlayer openField [] 0 0 suspect = Inr (a', pl')
      \<and> alertLevel a' = 0.35 \<and> alertState a' = SUSPICIOUS
      \<and> alertState a' = getStateFromLevel (alertLevel a')"
proof -
  let ?b = "update_intake (1 / 50) deadPlayer openField 0 suspect"
  have lvl: "alertLevel ?b = 0.35"
    by (simp add: quiet_intake update_state_def update_decay_level suspect_fields)
  have lk: "lastKnownPlayerPos ?b = None"
    by (simp add: quiet_intake update_state_def update_decay_fields suspect_fields)
  from update_total [of suspect "1 / 50" deadPlayer openField "[]" 0 0]
  obtain a' pl' where
    u: "update (1 / 50) deadPlayer openField [] 0 0 suspect = Inr (a', pl')"
    by (auto simp: suspect_fields)
  note facts = update_state_is_threshold_of_intake [OF suspect_fields(1) u, of 0]
  have st: "alertState a' = SUSPICIOUS"
    using facts by (simp add: lvl)
  have same: "alertState a' = getStateFromLevel (alertLevel a')"
    using facts st lk by blast
  have "alertLevel a' = 0.35"
    using update_level [OF suspect_fields(1) u] update_intake_state [of "1 / 50" deadPlayer openField 0 suspect]
    by (simp add: lvl lk getStateFromLevel_def combatThreshold_def alertedThreshold_def
        suspiciousThreshold_def)
  with u st same show ?thesis by blast
qed

text \<open>
  The claim's equality at the end of the tick fails: a guard that gives up its
  investigation in the tick is Suspicious at level 0 when the update returns, and the
  threshold function of 0 is Idle.
\<close>

theorem state_lags_level_counterexample:
  "\<exists>a' pl'. update (1 / 50) deadPlayer openField [] 0 0 investigator = Inr (a', pl')
      \<and> alertLevel a' = 0 \<and> alertState a' = SUSPICIOUS
      \<and> alertState a' \<noteq> getStateFromLevel (alertLevel a')"
proof -
  let ?b = "update_intake (1 / 50) deadPlayer openField 0 investigator"
  have lvl: "alertLevel ?b = 0.497"
    by (simp add: quiet_intake update_state_def update_decay_level investigator_fields)
  have st: "alertState ?b = SUSPICIOUS"
    using update_intake_state [of "1 / 50" deadPlayer openField 0 investigator]
    by (simp add: lvl getStateFromLevel_thresholds)
  have lk: "lastKnownPlayerPos ?b = Some \<lparr>vx = 0, vy = 0, vz = 0\<rparr>"
    by (simp add: quiet_intake update_state_def update_decay_fields investigator_fields)
  have tm: "investigateTime investigator + 1 / 50 > investigateDuration investigator"
    by (simp add: investigator_fields)
  from update_total [of investigator "1 / 50" deadPlayer openField "[]" 0 0]
  obtain a' pl' where
    u: "update (1 / 50) deadPlayer openField [] 0 0 investigator = Inr (a', pl')"
    by (auto simp: investigator_fields)
  from update_gives_up [OF investigator_fields(1) st lk tm u]
  have "alertLevel a' = 0 \<and> alertState a' = SUSPICIOUS"
    by simp
  then have "alertLevel a' = 0 \<and> alertState a' = SUSPICIOUS
      \<and> alertState a' \<noteq> getStateFromLevel (alertLevel a')"
    by (simp add: getStateFromLevel_def combatThreshold_def alertedThreshold_def
        suspiciousThreshold_def)
  with u show ?thesis by blast
qed

section \<open>The alert level is never negative\<close>

lemma newEnemy_invariant:
  "0 \<le> alertLevel (newEnemy n pos route target)"
  "patrolRoute (newEnemy n pos route target) = []
   \<or> currentPatrolIndex (newEnemy n pos route target)
       < length (patrolRoute (newEnemy n pos route target))"
  by (simp_all add: newEnemy_def)

lemma takeDamage_invariant:
  "0 \<le> alertLevel a \<Longrightarrow> 0 \<le> alertLevel (snd (takeDamage amount isHeadshot a))"
  "patrolRoute (snd (takeDamage amount isHeadshot a)) = patrolRoute a"
  "currentPatrolIndex (snd (takeDamage amount isHeadshot a)) = currentPatrolIndex a"
  by (simp_all add: takeDamage_def die_def Let_def)

lemma alertEnemy_invariant:
  "0 \<le> alertLevel a \<Longrightarrow> 0 \<le> alertLevel (alertEnemy pos level a)"
  "patrolRoute (alertEnemy pos level a) = patrolRoute a"
  "currentPatrolIndex (alertEnemy pos level a) = currentPatrolIndex a"
  by (simp_all add: alertEnemy_def Let_def)

lemma step_invariant:
  assumes "0 \<le> alertLevel a"
    and "patrolRoute a = [] \<or> currentPatrolIndex a < length (patrolRoute a)"
  shows "\<exists>a'. step ev a = Inr a' \<and> 0 \<le> alertLevel a'
           \<and> (patrolRoute a' = [] \<or> currentPatrolIndex a' < length (patrolRoute a'))"
proof (cases ev)
  case (Tick d pl ss cs now rnd)
  from update_total [OF assms(2), of d pl ss cs now rnd] obtain a' pl' where
    u: "update d pl ss cs now rnd a = Inr (a', pl')"
    and r: "patrolRoute a' = [] \<or> currentPatrolIndex a' < length (patrolRoute a')"
    by blast
  have "0 \<le> alertLevel a'"
    using assms(1) u by (rule update_level_nonneg)
  then show ?thesis
    using u r by (simp add: Tick)
next
  case (Hit amount isHeadshot)
  then show ?thesis
    using assms by (simp add: takeDamage_invariant)
next
  case (Alert pos level)
  then show ?thesis
    using assms by (simp add: alertEnemy_invariant)
qed

lemma run_invariant:
  assumes "0 \<le> alertLevel a"
    and "patrolRoute a = [] \<or> currentPatrolIndex a < length (patrolRoute a)"
  shows "\<exists>a'. run evs a = Inr a' \<and> 0 \<le> alertLevel a'"
  using assms
proof (induction evs arbitrary: a)
  case Nil
  then show ?case by simp
next
  case (Cons ev evs)
  from step_invariant [OF Cons.prems, of ev] obtain a1 where
    s: "step ev a = Inr a1" and l: "0 \<le> alertLevel a1"
    and r: "patrolRoute a1 = [] \<or> currentPatrolIndex a1 < length (patrolRoute a1)"
    by blast
  from Cons.IH [OF l r] show ?case
    by (simp add: s)
qed

text \<open>
  Claim C7. Whatever happens to an agent after its construction (ticks with any player,
  world, clock, random draw and deltaTime, hits, broadcast alerts), no update throws and
  the alert level is at least 0 after every event. One update never makes a level
  negative that was not: the decay subtracts decay rate * deltaTime only when the level
  is above 0 and the state is not Combat, and floors the result at 0; investigate resets
  to 0, search subtracts 0.3 from a level that is at least 0.7, combat assigns 0.5.
\<close>

theorem alertLevel_never_negative:
  "(\<exists>a'. run evs (newEnemy n pos route target) = Inr a' \<and> 0 \<le> alertLevel a')
   \<and> (0 \<le> alertLevel a \<and> update deltaTime pl ss colliders now rnd a = Inr (b, pl')
        \<longrightarrow> 0 \<le> alertLevel b)
   \<and> alertLevel (update_decay deltaTime a) =
        (if alertLevel a > 0 \<and> alertState a \<noteq> COMBAT
         then max 0 (alertLevel a - alertDecayRate a * deltaTime) else alertLevel a)"
proof (intro conjI impI)
  show "\<exists>a'. run evs (newEnemy n pos route target) = Inr a' \<and> 0 \<le> alertLevel a'"
    by (rule run_invariant) (rule newEnemy_invariant)+
next
  assume "0 \<le> alertLevel a \<and> update deltaTime pl ss colliders now rnd a = Inr (b, pl')"
  then show "0 \<le> alertLevel b"
    using update_level_nonneg by blast
next
  show "alertLevel (update_decay deltaTime a) =
        (if alertLevel a > 0 \<and> alertState a \<noteq> COMBAT
         then max 0 (alertLevel a - alertDecayRate a * deltaTime) else alertLevel a)"
    by (rule update_decay_level)
qed

text \<open>
  A new guard that is alerted, lives through a tick of 6 seconds and is hit; and the
  decay of 6 seconds on a level of 0.5, floored at 0.
\<close>

theorem alertLevel_never_negative_witness:
  "(\<exists>a'. run [Alert \<lparr>vx = 3, vy = 0, vz = 4\<rparr> 0.5,
              Tick 6 deadPlayer openField [] 0 0,
              Hit 10 False]
          (newEnemy 1 \<lparr>vx = 0, vy = 0, vz = 0\<rparr> [] False) = Inr a' \<and> 0 \<le> alertLevel a')
   \<and> alertLevel (update_decay 6 investigator) = 0"
proof -
  have "alertLevel (update_decay 6 investigator) = 0"
    using alertLevel_never_negative [of "[]" 1 "\<lparr>vx = 0, vy = 0, vz = 0\<rparr>" "[]" False
        investigator 6 deadPlayer openField "[]" 0 0 investigator deadPlayer]
    by (simp add: investigator_fields)
  moreover have "\<exists>a'. run [Alert \<lparr>vx = 3, vy = 0, vz = 4\<rparr> 0.5,
              Tick 6 deadPlayer openField [] 0 0,
              Hit 10 False]
          (newEnemy 1 \<lparr>vx = 0, vy = 0, vz = 0\<rparr> [] False) = Inr a' \<and> 0 \<le> alertLevel a'"
    using alertLevel_never_negative [of "[Alert \<lparr>vx = 3, vy = 0, vz = 4\<rparr> 0.5,
              Tick 6 deadPlayer openField [] 0 0, Hit 10 False]"
        1 "\<lparr>vx = 0, vy = 0, vz = 0\<rparr>" "[]" False
        investigator 6 deadPlayer openField "[]" 0 0 investigator deadPlayer]
    by blast
  ultimately show ?thesis by blast
qed

section \<open>Giving up an investigation\<close>

lemma update_investigateDuration:
  assumes "update d pl ss cs now rnd a = Inr (a', pl')"
  shows "investigateDuration a' = investigateDuration a"
proof (cases "isAlive a")
  case False
  then show ?thesis
    using assms by (simp add: update_def)
next
  case True
  from update_alive [OF True assms] obtain b' where
    beh: "update_behaviour d pl cs now rnd (update_intake d pl ss now a) = Inr (b', pl')"
    and a': "a' = update_cooldown d b'"
    by blast
  have "investigateDuration b' = investigateDuration (update_intake d pl ss now a)"
    using update_behaviour_cases [OF beh]
    by (auto simp: patrol_fields investigate_fields search_fields combat_fields)
  then show ?thesis
    by (simp add: a' update_cooldown_fields update_intake_fields)
qed

lemma step_investigateDuration:
  assumes "step ev a = Inr a'"
  shows "investigateDuration a' = investigateDuration a"
proof (cases ev)
  case (Tick d pl ss cs now rnd)
  then obtain pl' where "update d pl ss cs now rnd a = Inr (a', pl')"
    using assms by (cases "update d pl ss cs now rnd a") auto
  then show ?thesis
    by (rule update_investigateDuration)
next
  case (Hit amount isHeadshot)
  then show ?thesis
    using assms by (auto simp: takeDamage_def die_def Let_def)
next
  case (Alert pos level)
  then show ?thesis
    using assms by (auto simp: alertEnemy_def Let_def)
qed

lemma run_investigateDuration:
  assumes "run evs a = Inr a'"
  shows "investigateDuration a' = investigateDuration a"
  using assms
proof (induction evs arbitrary: a)
  case Nil
  then show ?case by simp
next
  case (Cons ev evs)
  then obtain a1 where s: "step ev a = Inr a1" and r: "run evs a1 = Inr a'"
    by (cases "step ev a") auto
  from Cons.IH [OF r] step_investigateDuration [OF s] show ?case
    by simp
qed

lemma investigateDuration_is_five:
  "run evs (newEnemy n pos route target) = Inr a \<Longrightarrow> investigateDuration a = 5"
  using run_investigateDuration [of evs "newEnemy n pos route target" a]
  by (simp add: newEnemy_def)

lemma update_gives_up_timer:
  assumes "isAlive a"
    and "alertState (update_intake d pl ss now a) = SUSPICIOUS"
    and "lastKnownPlayerPos (update_intake d pl ss now a) = Some q"
    and "investigateTime a + d > investigateDuration a"
    and "update d pl ss cs now rnd a = Inr (a', pl')"
  shows "investigateTime a' = 0"
proof -
  let ?b = "update_intake d pl ss now a"
  from update_alive [OF assms(1,5)] obtain b' where
    beh: "update_behaviour d pl cs now rnd ?b = Inr (b', pl')" and a': "a' = update_cooldown d b'"
    by blast
  have "investigate d cs now ?b = Inr b'"
    using update_behaviour_cases [OF beh] assms(2) by simp
  then have "investigateTime b' = 0"
    using assms(3,4)
    by (auto simp: investigate_def Let_def moveTowards_fields update_intake_fields
        split: if_splits)
  then show ?thesis
    by (simp add: a' update_cooldown_fields)
qed

text \<open>
  Claim C8. An agent investigates with the duration 5 the constructor gave it (no event
  changes it). In investigate mode with a last known position, once the timer, with the
  deltaTime of the tick added, exceeds 5, the agent gives up in that one step: the alert
  level is 0, the last known position is absent and the timer is 0 again. This holds of
  \<^verbatim>\<open>investigate\<close> itself and of the update of a living agent whose state of the tick
  is Suspicious.
\<close>

theorem investigate_gives_up:
  assumes "investigateDuration a = 5" and "investigateTime a + deltaTime > 5"
  shows "(lastKnownPlayerPos a = Some lastKnown \<longrightarrow>
            (\<exists>a'. investigate deltaTime colliders now a = Inr a' \<and> alertLevel a' = 0
               \<and> lastKnownPlayerPos a' = None \<and> investigateTime a' = 0))
       \<and> (isAlive a \<and> alertState (update_intake deltaTime pl ss now a) = SUSPICIOUS
            \<and> lastKnownPlayerPos (update_intake deltaTime pl ss now a) = Some lastKnown
            \<and> update deltaTime pl ss colliders now rnd a = Inr (b, pl')
          \<longrightarrow> alertLevel b = 0 \<and> lastKnownPlayerPos b = None \<and> investigateTime b = 0)"
proof (intro conjI impI)
  assume "lastKnownPlayerPos a = Some lastKnown"
  then show "\<exists>a'. investigate deltaTime colliders now a = Inr a' \<and> alertLevel a' = 0
               \<and> lastKnownPlayerPos a' = None \<and> investigateTime a' = 0"
    using assms by (simp add: investigate_def Let_def moveTowards_fields)
next
  assume tick: "isAlive a \<and> alertState (update_intake deltaTime pl ss now a) = SUSPICIOUS
            \<and> lastKnownPlayerPos (update_intake deltaTime pl ss now a) = Some lastKnown
            \<and> update deltaTime pl ss colliders now rnd a = Inr (b, pl')"
  have late: "investigateTime a + deltaTime > investigateDuration a"
    using assms by simp
  from tick late show "alertLevel b = 0" "lastKnownPlayerPos b = None"
    using update_gives_up [of a deltaTime pl ss now lastKnown colliders rnd b pl'] by simp_all
  from tick late show "investigateTime b = 0"
    using update_gives_up_timer [of a deltaTime pl ss now lastKnown colliders rnd b pl'] by simp
qed

text \<open>
  A guard that has investigated for 4.99 seconds, and a tick of 0.02 seconds.
\<close>

theorem investigate_gives_up_witness:
  "(\<exists>a'. investigate (1 / 50) [] 0 investigator = Inr a' \<and> alertLevel a' = 0
           \<and> lastKnownPlayerPos a' = None \<and> investigateTime a' = 0)
   \<and> (\<exists>b pl'. update (1 / 50) deadPlayer openField [] 0 0 investigator = Inr (b, pl')
           \<and> alertLevel b = 0 \<and> lastKnownPlayerPos b = None \<and> investigateTime b = 0)"
proof -
  let ?b = "update_intake (1 / 50) deadPlayer openField 0 investigator"
  have late: "investigateTime investigator + 1 / 50 > 5"
    by (simp add: investigator_fields)
  have lvl: "alertLevel ?b = 0.497"
    by (simp add: quiet_intake update_state_def update_decay_level investigator_fields)
  have st: "alertState ?b = SUSPICIOUS"
    using update_intake_state [of "1 / 50" deadPlayer openField 0 investigator]
    by (simp add: lvl getStateFromLevel_thresholds)
  have lk: "lastKnownPlayerPos ?b = Some \<lparr>vx = 0, vy = 0, vz = 0\<rparr>"
    by (simp add: quiet_intake update_state_def update_decay_fields investigator_fields)
  from update_total [of investigator "1 / 50" deadPlayer openField "[]" 0 0]
  obtain b pl' where
    u: "update (1 / 50) deadPlayer openField [] 0 0 investigator = Inr (b, pl')"
    by (auto simp: investigator_fields)
  note gives_up = investigate_gives_up [OF investigator_fields(7) late,
      of "\<lparr>vx = 0, vy = 0, vz = 0\<rparr>" "[]" 0 deadPlayer openField 0 b pl']
  have direct: "\<exists>a'. investigate (1 / 50) [] 0 investigator = Inr a' \<and> alertLevel a' = 0
           \<and> lastKnownPlayerPos a' = None \<and> investigateTime a' = 0"
    using gives_up investigator_fields(5) by blast
  have "alertLevel b = 0 \<and> lastKnownPlayerPos b = None \<and> investigateTime b = 0"
    using gives_up investigator_fields(1) st lk u by blast
  with u direct show ?thesis by blast
qed

section \<open>The global alert\<close>

lemma highestAlert_first_maximum:
  assumes "highestAlert es (s, l) = (st, lv)"
  shows "(\<forall>e \<in> set es. alertLevel e \<le> lv) \<and> l \<le> lv
       \<and> ((\<forall>e \<in> set es. alertLevel e \<le> l) \<longrightarrow> st = s \<and> lv = l)
       \<and> ((\<exists>e \<in> set es. l < alertLevel e) \<longrightarrow>
            (\<exists>i < length es. alertLevel (es ! i) = lv \<and> alertState (es ! i) = st
               \<and> (\<forall>j < i. alertLevel (es ! j) < lv)))"
  using assms
proof (induction es arbitrary: s l)
  case Nil
  then show ?case by simp
next
  case (Cons e es)
  show ?case
  proof (cases "alertLevel e > l")
    case True
    then have rec: "highestAlert es (alertState e, alertLevel e) = (st, lv)"
      using Cons.prems by simp
    note ih = Cons.IH [OF rec]
    have first: "\<exists>i < length (e # es). alertLevel ((e # es) ! i) = lv
                   \<and> alertState ((e # es) ! i) = st
                   \<and> (\<forall>j < i. alertLevel ((e # es) ! j) < lv)"
    proof (cases "\<exists>x \<in> set es. alertLevel e < alertLevel x")
      case False
      then have "st = alertState e \<and> lv = alertLevel e"
        using ih by (auto simp: not_less)
      then have "alertLevel ((e # es) ! 0) = lv \<and> alertState ((e # es) ! 0) = st
                   \<and> (\<forall>j < 0. alertLevel ((e # es) ! j) < lv)"
        by simp
      then show ?thesis by blast
    next
      case later: True
      then obtain i where i: "i < length es" "alertLevel (es ! i) = lv"
        "alertState (es ! i) = st" "\<forall>j < i. alertLevel (es ! j) < lv"
        using ih by blast
      from later ih have gt: "alertLevel e < lv"
        by force
      have "\<forall>j < Suc i. alertLevel ((e # es) ! j) < lv"
        using i(4) gt by (auto simp: nth_Cons split: nat.splits)
      with i show ?thesis
        by (intro exI [of _ "Suc i"]) simp
    qed
    show ?thesis
      using ih True first by auto
  next
    case False
    then have rec: "highestAlert es (s, l) = (st, lv)"
      using Cons.prems by simp
    note ih = Cons.IH [OF rec]
    have first: "\<exists>i < length (e # es). alertLevel ((e # es) ! i) = lv
                   \<and> alertState ((e # es) ! i) = st
                   \<and> (\<forall>j < i. alertLevel ((e # es) ! j) < lv)"
      if "\<exists>x \<in> set (e # es). l < alertLevel x"
    proof -
      from that False have later: "\<exists>x \<in> set es. l < alertLevel x"
        by auto
      then obtain i where i: "i < length es" "alertLevel (es ! i) = lv"
        "alertState (es ! i) = st" "\<forall>j < i. alertLevel (es ! j) < lv"
        using ih by blast
      from later ih have "l < lv"
        by force
      with False have gt: "alertLevel e < lv"
        by simp
      have "\<forall>j < Suc i. alertLevel ((e # es) ! j) < lv"
        using i(4) gt by (auto simp: nth_Cons split: nat.splits)
      with i show ?thesis
        by (intro exI [of _ "Suc i"]) simp
    qed
    show ?thesis
      using ih False first by auto
  qed
qed

lemma highestAlert_ignores_isAlive:
  "highestAlert (map (\<lambda>e. e\<lparr>isAlive := alive e\<rparr>) es) acc = highestAlert es acc"
  by (induction es acc rule: highestAlert.induct) simp_all

text \<open>
  Claim C3, as the code has it. \<^verbatim>\<open>updateGlobalAlert\<close> is a reduction over all the
  agents it is given, alive or not: it never reads the alive flag. Starting from
  (Idle, 0), it returns, and stores, the state and level of the first agent that has the
  highest alert level when that level is above 0, and (Idle, 0) when no level is above 0.
\<close>

theorem globalAlert_reduces_all_agents:
  "(\<exists>st lv. updateGlobalAlert enemies ss
               = (st, ss\<lparr>globalAlertLevel := lv, globalAlertState := st\<rparr>)
      \<and> (\<forall>e \<in> set enemies. alertLevel e \<le> lv) \<and> 0 \<le> lv
      \<and> ((\<forall>e \<in> set enemies. alertLevel e \<le> 0) \<longrightarrow> st = IDLE \<and> lv = 0)
      \<and> ((\<exists>e \<in> set enemies. 0 < alertLevel e) \<longrightarrow>
           (\<exists>i < length enemies. alertLevel (enemies ! i) = lv
               \<and> alertState (enemies ! i) = st
               \<and> (\<forall>j < i. alertLevel (enemies ! j) < lv))))
   \<and> updateGlobalAlert (map (\<lambda>e. e\<lparr>isAlive := alive e\<rparr>) enemies) ss
       = updateGlobalAlert enemies ss"
proof
  obtain st lv where h: "highestAlert enemies (IDLE, 0) = (st, lv)"
    by (cases "highestAlert enemies (IDLE, 0)")
  have "updateGlobalAlert enemies ss = (st, ss\<lparr>globalAlertLevel := lv, globalAlertState := st\<rparr>)"
    by (simp add: updateGlobalAlert_def h)
  with highestAlert_first_maximum [OF h]
  show "\<exists>st lv. updateGlobalAlert enemies ss
               = (st, ss\<lparr>globalAlertLevel := lv, globalAlertState := st\<rparr>)
      \<and> (\<forall>e \<in> set enemies. alertLevel e \<le> lv) \<and> 0 \<le> lv
      \<and> ((\<forall>e \<in> set enemies. alertLevel e \<le> 0) \<longrightarrow> st = IDLE \<and> lv = 0)
      \<and> ((\<exists>e \<in> set enemies. 0 < alertLevel e) \<longrightarrow>
           (\<exists>i < length enemies. alertLevel (enemies ! i) = lv
               \<and> alertState (enemies ! i) = st
               \<and> (\<forall>j < i. alertLevel (enemies ! j) < lv)))"
    by blast
  show "updateGlobalAlert (map (\<lambda>e. e\<lparr>isAlive := alive e\<rparr>) enemies) ss
       = updateGlobalAlert enemies ss"
    by (simp add: updateGlobalAlert_def highestAlert_ignores_isAlive)
qed

lemma fallenGuard_fields:
  "\<not> isAlive fallenGuard" "alertLevel fallenGuard = 1" "alertState fallenGuard = COMBAT"
  by (simp_all add: fallenGuard_def takeDamage_def die_def Let_def guardAtOrigin_def newEnemy_def)

lemma lostTarget_fields:
  "alertLevel lostTarget = 0.5" "alertState lostTarget = COMBAT"
  by (simp_all add: lostTarget_def)

text \<open>
  Four guards with the levels 0, 0.5, 0.5 and 0.353: the global alert is that of the
  first guard at level 0.5, in either order of the two, and it is the same when all four
  are marked dead.
\<close>

theorem globalAlert_reduces_all_agents_witness:
  "updateGlobalAlert [guardAtOrigin, investigator, lostTarget, suspect] openField
     = (SUSPICIOUS, openField\<lparr>globalAlertLevel := 0.5, globalAlertState := SUSPICIOUS\<rparr>)
   \<and> updateGlobalAlert [guardAtOrigin, lostTarget, investigator, suspect] openField
     = (COMBAT, openField\<lparr>globalAlertLevel := 0.5, globalAlertState := COMBAT\<rparr>)
   \<and> updateGlobalAlert
         (map (\<lambda>e. e\<lparr>isAlive := False\<rparr>) [guardAtOrigin, investigator, lostTarget, suspect])
         openField
     = (SUSPICIOUS, openField\<lparr>globalAlertLevel := 0.5, globalAlertState := SUSPICIOUS\<rparr>)"
proof -
  have v: "updateGlobalAlert [guardAtOrigin, investigator, lostTarget, suspect] openField
     = (SUSPICIOUS, openField\<lparr>globalAlertLevel := 0.5, globalAlertState := SUSPICIOUS\<rparr>)"
    by (simp add: updateGlobalAlert_def guardAtOrigin_calm investigator_fields suspect_fields
        lostTarget_fields)
  have w: "updateGlobalAlert [guardAtOrigin, lostTarget, investigator, suspect] openField
     = (COMBAT, openField\<lparr>globalAlertLevel := 0.5, globalAlertState := COMBAT\<rparr>)"
    by (simp add: updateGlobalAlert_def guardAtOrigin_calm investigator_fields suspect_fields
        lostTarget_fields)
  from globalAlert_reduces_all_agents
    [of "[guardAtOrigin, investigator, lostTarget, suspect]" openField "\<lambda>e. False"]
  have "updateGlobalAlert
          (map (\<lambda>e. e\<lparr>isAlive := False\<rparr>) [guardAtOrigin, investigator, lostTarget, suspect])
          openField
        = updateGlobalAlert [guardAtOrigin, investigator, lostTarget, suspect] openField"
    by (rule conjunct2)
  with v w show ?thesis by simp
qed

lemma investigator_gives_up:
  "\<exists>a' pl'. update (1 / 50) deadPlayer openField [] 0 0 investigator = Inr (a', pl')
      \<and> isAlive a' \<and> alertLevel a' = 0 \<and> alertState a' = SUSPICIOUS"
proof -
  let ?b = "update_intake (1 / 50) deadPlayer openField 0 investigator"
  have lvl: "alertLevel ?b = 0.497"
    by (simp add: quiet_intake update_state_def update_decay_level investigator_fields)
  have st: "alertState ?b = SUSPICIOUS"
    using update_intake_state [of "1 / 50" deadPlayer openField 0 investigator]
    by (simp add: lvl getStateFromLevel_thresholds)
  have lk: "lastKnownPlayerPos ?b = Some \<lparr>vx = 0, vy = 0, vz = 0\<rparr>"
    by (simp add: quiet_intake update_state_def update_decay_fields investigator_fields)
  have tm: "investigateTime investigator + 1 / 50 > investigateDuration investigator"
    by (simp add: investigator_fields)
  from update_total [of investigator "1 / 50" deadPlayer openField "[]" 0 0]
  obtain a' pl' where
    u: "update (1 / 50) deadPlayer openField [] 0 0 investigator = Inr (a', pl')"
    by (auto simp: investigator_fields)
  from update_gives_up [OF investigator_fields(1) st lk tm u]
  have "alertLevel a' = 0 \<and> alertState a' = SUSPICIOUS"
    by simp
  moreover have "isAlive a'"
    using update_isAlive [OF u] investigator_fields(1) by simp
  ultimately show ?thesis
    using u by blast
qed

text \<open>
  The claim's "agents that have died never influence the returned state or level" fails:
  a guard wounded (which puts it in Combat at level 1) and then killed is not alive, and
  with it in the list the global alert is Combat at level 1, where the only living guard
  is Idle at level 0. And the signal is not always the state of the living agent with
  the highest level: a living guard that has just given up its investigation is
  Suspicious at level 0, and the global alert of that guard alone is Idle at level 0.
\<close>

theorem dead_agent_raises_global_alert_counterexample:
  "\<not> isAlive fallenGuard \<and> isAlive guardAtOrigin
   \<and> updateGlobalAlert [fallenGuard, guardAtOrigin] openField
       = (COMBAT, openField\<lparr>globalAlertLevel := 1, globalAlertState := COMBAT\<rparr>)
   \<and> updateGlobalAlert [guardAtOrigin] openField
       = (IDLE, openField\<lparr>globalAlertLevel := 0, globalAlertState := IDLE\<rparr>)
   \<and> (\<exists>a' pl'. update (1 / 50) deadPlayer openField [] 0 0 investigator = Inr (a', pl')
         \<and> isAlive a' \<and> alertLevel a' = 0 \<and> alertState a' = SUSPICIOUS
         \<and> updateGlobalAlert [a'] openField
             = (IDLE, openField\<lparr>globalAlertLevel := 0, globalAlertState := IDLE\<rparr>))"
proof -
  from investigator_gives_up obtain a' pl' where
    u: "update (1 / 50) deadPlayer openField [] 0 0 investigator = Inr (a', pl')"
    and f: "isAlive a'" "alertLevel a' = 0" "alertState a' = SUSPICIOUS"
    by blast
  have "updateGlobalAlert [a'] openField
          = (IDLE, openField\<lparr>globalAlertLevel := 0, globalAlertState := IDLE\<rparr>)"
    by (simp add: updateGlobalAlert_def f)
  with u f have third: "\<exists>a' pl'. update (1 / 50) deadPlayer openField [] 0 0 investigator = Inr (a', pl')
         \<and> isAlive a' \<and> alertLevel a' = 0 \<and> alertState a' = SUSPICIOUS
         \<and> updateGlobalAlert [a'] openField
             = (IDLE, openField\<lparr>globalAlertLevel := 0, globalAlertState := IDLE\<rparr>)"
    by blast
  have "\<not> isAlive fallenGuard \<and> isAlive guardAtOrigin
   \<and> updateGlobalAlert [fallenGuard, guardAtOrigin] openField
       = (COMBAT, openField\<lparr>globalAlertLevel := 1, globalAlertState := COMBAT\<rparr>)
   \<and> updateGlobalAlert [guardAtOrigin] openField
       = (IDLE, openField\<lparr>globalAlertLevel := 0, globalAlertState := IDLE\<rparr>)"
    by (simp add: updateGlobalAlert_def fallenGuard_fields guardAtOrigin_calm)
  with third show ?thesis
    by simp
qed

section \<open>The last known position of the player\<close>

lemma nearPlayer_seen: "0 < checkDetection openField guardAtOrigin nearPlayer (1 / 10)"
proof -
  have d: "cd_distance guardAtOrigin nearPlayer = 5 / 8"
    by (rule nearPlayer_distance) (rule guardAtOrigin_place)
  have a: "cd_angle guardAtOrigin nearPlayer \<le> detectionAngle guardAtOrigin"
    using arccos_three_fifths by (simp add: nearPlayer_angle guardAtOrigin_place)
  have "checkDetection openField guardAtOrigin nearPlayer (1 / 10) =
          (2 - cd_distance guardAtOrigin nearPlayer / detectionRange guardAtOrigin)
          * (detectionSpeed (alertState guardAtOrigin)
             * (0.5 + 0.5 * (1 - cd_angle guardAtOrigin nearPlayer
                                  / detectionAngle guardAtOrigin))
             * getVisibilityMultiplier nearPlayer
             * getLightingModifier (levelBuilder openField) (p_position nearPlayer)
             * (1 / 10))"
    using a by (intro checkDetection_in_view)
      (simp_all add: d guardAtOrigin_place crouching_players openField_sight)
  moreover have "0 < detectionSpeed (alertState guardAtOrigin)
             * (0.5 + 0.5 * (1 - cd_angle guardAtOrigin nearPlayer
                                  / detectionAngle guardAtOrigin))
             * getVisibilityMultiplier nearPlayer
             * getLightingModifier (levelBuilder openField) (p_position nearPlayer)
             * (1 / 10)"
    using a by (intro view_factor_pos) simp_all
  moreover have "0 < 2 - cd_distance guardAtOrigin nearPlayer / detectionRange guardAtOrigin"
    by (simp add: d guardAtOrigin_place)
  ultimately show ?thesis
    by (simp only: mult_pos_pos)
qed

lemma update_lastKnown_at_tick_end:
  assumes "isAlive a" and "0 < checkDetection ss a pl d"
    and "update d pl ss cs now rnd a = Inr (a', pl')"
  shows "lastKnownPlayerPos a' =
           (if alertState a' = SUSPICIOUS \<and> investigateTime a + d > investigateDuration a
            then None else Some (p_position pl))"
proof -
  let ?b = "update_intake d pl ss now a"
  from update_alive [OF assms(1,3)] obtain b' where
    beh: "update_behaviour d pl cs now rnd ?b = Inr (b', pl')" and a': "a' = update_cooldown d b'"
    by blast
  have lk: "lastKnownPlayerPos ?b = Some (p_position pl)"
    using assms(2) by (rule update_intake_lastKnown)
  have alive: "p_isAlive pl"
    using assms(2) by (cases "p_isAlive pl") (simp_all add: checkDetection_def)
  have st: "alertState b' = alertState ?b"
    by (rule update_behaviour_state [OF beh])
  have "lastKnownPlayerPos b' =
           (if alertState ?b = SUSPICIOUS \<and> investigateTime a + d > investigateDuration a
            then None else Some (p_position pl))"
    using update_behaviour_cases [OF beh] lk alive
    by (auto simp: patrol_fields investigate_fields search_fields combat_fields
        update_intake_fields)
  then show ?thesis
    by (simp add: a' st update_cooldown_fields)
qed

lemma openField_silent: "update_sound openField now a = a"
  by (simp add: update_sound_def checkSoundDetection_def openField_def newStealthSystem_def)

lemma investigator_place:
  "position investigator = \<lparr>vx = 0, vy = 0, vz = 0\<rparr>" "rotation investigator = 0"
  "detectionRange investigator = 12" "detectionAngle investigator = pi / 3"
  by (simp_all add: investigator_def guardAtOrigin_def newEnemy_def)

lemma investigator_sees_nearPlayer:
  "0 < checkDetection openField investigator nearPlayer (1 / 10)"
  "checkDetection openField investigator nearPlayer (1 / 10) < 1 / 10"
proof -
  let ?v = "checkDetection openField investigator nearPlayer (1 / 10)"
  define t where "t = cd_angle investigator nearPlayer / detectionAngle investigator"
  have d: "cd_distance investigator nearPlayer = 5 / 8"
    by (rule nearPlayer_distance) (rule investigator_place)
  have a: "cd_angle investigator nearPlayer = arccos (3 / 5)"
    by (rule nearPlayer_angle) (rule investigator_place)+
  have a_le: "cd_angle investigator nearPlayer \<le> detectionAngle investigator"
    using arccos_three_fifths by (simp add: a investigator_place)
  have "0 \<le> arccos (3 / 5 :: real)"
    by (rule arccos_lbound) simp_all
  then have t0: "0 \<le> t"
    unfolding t_def by (simp add: a investigator_place)
  have half: "0 < detectionAngle investigator"
    by (simp add: investigator_place)
  have t1: "t \<le> 1"
    unfolding t_def using a_le half by (simp only: divide_le_eq_1_pos)
  have "?v = (2 - cd_distance investigator nearPlayer / detectionRange investigator)
          * (detectionSpeed (alertState investigator)
             * (0.5 + 0.5 * (1 - cd_angle investigator nearPlayer
                                  / detectionAngle investigator))
             * getVisibilityMultiplier nearPlayer
             * getLightingModifier (levelBuilder openField) (p_position nearPlayer)
             * (1 / 10))"
    using a_le by (intro checkDetection_in_view)
      (simp_all add: d investigator_place crouching_players openField_sight)
  then have v: "?v = (2 - (5 / 8) / 12) * (0.8 * (0.5 + 0.5 * (1 - t)) * 0.35 * 1 * (1 / 10))"
    unfolding t_def [symmetric]
    by (simp add: d investigator_place investigator_fields crouching_players)
  have lin: "?v = (187 / 96) * (7 / 250) * (1 - t / 2)"
    unfolding v by (simp add: field_simps)
  have pos: "0 < (187 / 96) * (7 / 250 :: real)"
    by simp
  have "0 < 1 - t / 2"
    using t1 by linarith
  then show "0 < ?v"
    unfolding lin using pos by (rule mult_pos_pos [rotated])
  have "(187 / 96) * (7 / 250) * (1 - t / 2) \<le> (187 / 96) * (7 / 250) * (1 :: real)"
    using t0 by (intro mult_left_mono) simp_all
  then show "?v < 1 / 10"
    unfolding lin by simp

qed

lemma investigator_sighting_intake:
  "alertState (update_intake (1 / 10) nearPlayer openField 0 investigator) = SUSPICIOUS"
  "lastKnownPlayerPos (update_intake (1 / 10) nearPlayer openField 0 investigator)
     = Some (p_position nearPlayer)"
proof -
  let ?b = "update_intake (1 / 10) nearPlayer openField 0 investigator"
  let ?v = "checkDetection openField investigator nearPlayer (1 / 10)"
  have "alertLevel ?b = 0.485 + ?v"
    using investigator_sees_nearPlayer(1)
    by (simp add: update_intake_def update_state_def openField_silent update_detect_level
        checkDetection_after_decay update_decay_level investigator_fields)
  then have "0.3 \<le> alertLevel ?b \<and> alertLevel ?b < 0.7"
    using investigator_sees_nearPlayer by simp
  then show "alertState ?b = SUSPICIOUS"
    using update_intake_state [of "1 / 10" nearPlayer openField 0 investigator]
    by (simp add: getStateFromLevel_thresholds)
  show "lastKnownPlayerPos ?b = Some (p_position nearPlayer)"
    using investigator_sees_nearPlayer(1) by (rule update_intake_lastKnown)
qed

text \<open>
  Claim C10, as the code has it. In a tick of a living agent in which the detection
  amount of \<^verbatim>\<open>checkDetection\<close> is above 0, the detection block of the update sets
  the last known position of the agent to the position of the player, whatever the alert
  state of the agent. When the update returns, the last known position is still the
  position of the player, unless the agent ends the tick Suspicious and its investigate
  timer, with the deltaTime of the tick added, exceeds the investigate duration: the
  investigation is then given up in the same tick and the last known position is absent.
\<close>

theorem sighting_sets_lastKnownPlayerPos:
  assumes "isAlive a"
    and "0 < checkDetection ss (update_decay deltaTime a) pl deltaTime"
    and "update deltaTime pl ss colliders now rnd a = Inr (a', pl')"
  shows "lastKnownPlayerPos (update_detect deltaTime pl ss (update_decay deltaTime a))
           = Some (p_position pl)
       \<and> lastKnownPlayerPos a' =
           (if alertState a' = SUSPICIOUS
               \<and> investigateTime a + deltaTime > investigateDuration a
            then None else Some (p_position pl))"
proof
  show "lastKnownPlayerPos (update_detect deltaTime pl ss (update_decay deltaTime a))
           = Some (p_position pl)"
    using assms(2) by (simp add: update_detect_lastKnown)
  have "0 < checkDetection ss a pl deltaTime"
    using assms(2) by (simp only: checkDetection_after_decay)
  from update_lastKnown_at_tick_end [OF assms(1) this assms(3)]
  show "lastKnownPlayerPos a' =
           (if alertState a' = SUSPICIOUS
               \<and> investigateTime a + deltaTime > investigateDuration a
            then None else Some (p_position pl))" .
qed

text \<open>
  A guard that sees the crouching player 0.625 away: when its update returns, the
  position of the player is its last known one.
\<close>

theorem sighting_sets_lastKnownPlayerPos_witness:
  "\<exists>a' pl'. update (1 / 10) nearPlayer openField [] 0 0 guardAtOrigin = Inr (a', pl')
      \<and> lastKnownPlayerPos a' = Some \<lparr>vx = 0, vy = 0, vz = - (3 / 8)\<rparr>"
proof -
  have alive: "isAlive guardAtOrigin"
    by (rule guardAtOrigin_calm)
  have seen: "0 < checkDetection openField (update_decay (1 / 10) guardAtOrigin) nearPlayer (1 / 10)"
    using nearPlayer_seen by (simp only: checkDetection_after_decay)
  from update_total [of guardAtOrigin "1 / 10" nearPlayer openField "[]" 0 0]
  obtain a' pl' where
    u: "update (1 / 10) nearPlayer openField [] 0 0 guardAtOrigin = Inr (a', pl')"
    by (auto simp: guardAtOrigin_def newEnemy_def)
  have early: "\<not> investigateTime guardAtOrigin + 1 / 10 > investigateDuration guardAtOrigin"
    by (simp add: guardAtOrigin_def newEnemy_def)
  from sighting_sets_lastKnownPlayerPos [OF alive seen u] early
  have "lastKnownPlayerPos a' = Some (p_position nearPlayer)"
    by simp
  then have "lastKnownPlayerPos a' = Some \<lparr>vx = 0, vy = 0, vz = - (3 / 8)\<rparr>"
    by (simp add: more_crouching_players)
  with u show ?thesis by blast
qed

text \<open>
  The claim's "lastKnownPlayerPos is set to the player's exact current position" fails
  for the tick as a whole: a guard that has investigated for 4.99 seconds sees the same
  player in a tick of 0.1 seconds, stays Suspicious, gives up the investigation in that
  tick, and has no last known position when the update returns.
\<close>

theorem sighting_cleared_by_give_up_counterexample:
  "isAlive investigator
   \<and> 0 < checkDetection openField (update_decay (1 / 10) investigator) nearPlayer (1 / 10)
   \<and> (\<exists>a' pl'. update (1 / 10) nearPlayer openField [] 0 0 investigator = Inr (a', pl')
         \<and> lastKnownPlayerPos a' = None)"
proof -
  have seen: "0 < checkDetection openField (update_decay (1 / 10) investigator) nearPlayer (1 / 10)"
    using investigator_sees_nearPlayer(1) by (simp only: checkDetection_after_decay)
  have tm: "investigateTime investigator + 1 / 10 > investigateDuration investigator"
    by (simp add: investigator_fields)
  from update_total [of investigator "1 / 10" nearPlayer openField "[]" 0 0]
  obtain a' pl' where
    u: "update (1 / 10) nearPlayer openField [] 0 0 investigator = Inr (a', pl')"
    by (auto simp: investigator_fields)
  from update_gives_up [OF investigator_fields(1) investigator_sighting_intake tm u]
  have "lastKnownPlayerPos a' = None"
    by simp
  with u seen investigator_fields(1) show ?thesis
    by blast
qed

end
